theory Spec2Isabelle
  imports Complex_Main "HOL-Library.Char_ord" "HOL-Library.List_Lexorder"
begin

section \<open>Data model of lib/mesh-gradient.ts\<close>

text \<open>
  The TypeScript type \<open>number\<close> is modelled by \<^typ>\<open>real\<close>: arithmetic is exact, and
  there is no NaN, no infinity and no rounding. Array indices and loop counters are
  \<^typ>\<open>nat\<close>. The record fields \<open>x\<close>, \<open>y\<close> of the source are called \<open>vx\<close>, \<open>vy\<close>, and
  the channels \<open>r\<close>, \<open>g\<close>, \<open>b\<close> are called \<open>red\<close>, \<open>green\<close>, \<open>blue\<close>, so that the short
  names stay free for variables.
\<close>

record vec2 =
  vx :: real
  vy :: real

record point = vec2 +
  color :: string

record RGB =
  red :: real
  green :: real
  blue :: real

record Triangle =
  points :: "point \<times> point \<times> point"
  centroid :: vec2
  area :: real
  colorVariance :: real

record MoodSettings =
  pathSmoothing :: real
  overlapAmount :: real
  shapeOpacity :: real
  adaptiveSensitivity :: real
  minShapeScale :: real
  mergeThreshold :: real
  gradientConsistency :: real
  baseGradientOpacity :: real

section \<open>Double arithmetic\<close>

text \<open>
  The source computes with JavaScript numbers, IEEE 754 binary64 with rounding to nearest,
  ties to even. \<open>to_double\<close> rounds a real to the nearest such number: \<open>binade\<close> finds the
  exponent \<open>b\<close> with \<open>2 powi b \<le> \<bar>x\<bar> < 2 powi (b + 1)\<close>, and the significand is rounded
  to a multiple of \<open>2 powi (b - 52)\<close>. Subnormal numbers, overflow and the sign of zero are
  left out: the model is that of the source for \<open>2 powi (- 1022) \<le> \<bar>x\<bar> < 2 powi 1024\<close>.
\<close>

fun binade :: "nat \<Rightarrow> real \<Rightarrow> int" where
  "binade 0 x = 0"
| "binade (Suc k) x =
     (if 2 \<le> x then binade k (x / 2) + 1 else if x < 1 then binade k (x * 2) - 1 else 0)"

definition round_half_even :: "real \<Rightarrow> int" where
  "round_half_even x =
     (let f = \<lfloor>x\<rfloor>; r = x - of_int f
      in if r < 1 / 2 then f else if 1 / 2 < r then f + 1 else if even f then f else f + 1)"

definition to_double :: "real \<Rightarrow> real" where
  "to_double x =
     (if x = 0 then 0
      else let e = binade 1100 \<bar>x\<bar> - 52
           in of_int (round_half_even (x / 2 powi e)) * 2 powi e)"

text \<open>The arithmetic operations of the source: the exact result, rounded.\<close>

definition dadd :: "real \<Rightarrow> real \<Rightarrow> real" where "dadd x y = to_double (x + y)"

definition dsub :: "real \<Rightarrow> real \<Rightarrow> real" where "dsub x y = to_double (x - y)"

definition dmul :: "real \<Rightarrow> real \<Rightarrow> real" where "dmul x y = to_double (x * y)"

definition ddiv :: "real \<Rightarrow> real \<Rightarrow> real" where "ddiv x y = to_double (x / y)"

section \<open>Mood mapping\<close>

definition moodToSettings :: "real \<Rightarrow> MoodSettings" where
  "moodToSettings mood =
     (let t = mood / 100 in
      \<lparr> pathSmoothing = max 1 (of_int \<lfloor>t * 4\<rfloor>),
        overlapAmount = 1.06 + t * 0.12,
        shapeOpacity = 0.97 - t * 0.3,
        adaptiveSensitivity = 0.25 + t * 0.45,
        minShapeScale = 0.8 + t * 0.4,
        mergeThreshold = 0.15 + t * 0.35,
        gradientConsistency = 0.35 + t * 0.55,
        baseGradientOpacity = 0.25 + t * 0.55 \<rparr>)"

definition moodToMinDistance :: "real \<Rightarrow> real \<Rightarrow> real \<Rightarrow> real" where
  "moodToMinDistance mood width height =
     (let minSize = min width height;
          factor = 0.035 + (mood / 100) * 0.11;
          px = minSize * factor
      in max px 24)"

text \<open>
  The ranges the source documents: the comments on the fields of \<open>MoodSettings\<close>
  (pathSmoothing 1-4, overlapAmount 1-1.2, shapeOpacity 0.6-0.98, baseGradientOpacity 0-1)
  and, for the four fields without a range there, the end points written beside each line of
  \<open>moodToSettings\<close> (0.25 -> 0.70, 0.8 -> 1.2, 0.15 -> 0.50, 0.35 -> 0.90).
\<close>

definition in_documented_range :: "MoodSettings \<Rightarrow> bool" where
  "in_documented_range s \<longleftrightarrow>
     1 \<le> pathSmoothing s \<and> pathSmoothing s \<le> 4 \<and>
     1 \<le> overlapAmount s \<and> overlapAmount s \<le> 1.2 \<and>
     0.6 \<le> shapeOpacity s \<and> shapeOpacity s \<le> 0.98 \<and>
     0.25 \<le> adaptiveSensitivity s \<and> adaptiveSensitivity s \<le> 0.70 \<and>
     0.8 \<le> minShapeScale s \<and> minShapeScale s \<le> 1.2 \<and>
     0.15 \<le> mergeThreshold s \<and> mergeThreshold s \<le> 0.50 \<and>
     0.35 \<le> gradientConsistency s \<and> gradientConsistency s \<le> 0.90 \<and>
     0 \<le> baseGradientOpacity s \<and> baseGradientOpacity s \<le> 1"

text \<open>
  \<open>moodToSettings\<close> as the source evaluates it: every literal is the double nearest to it
  and every operation rounds its exact result. The mood is the slider value, an integer from
  0 to 100, which is a double.
\<close>

definition moodToSettings_double :: "real \<Rightarrow> MoodSettings" where
  "moodToSettings_double mood =
     (let t = to_double (mood / 100) in
      \<lparr> pathSmoothing = max 1 (of_int \<lfloor>to_double (t * 4)\<rfloor>),
        overlapAmount = to_double (to_double 1.06 + to_double (t * to_double 0.12)),
        shapeOpacity = to_double (to_double 0.97 - to_double (t * to_double 0.3)),
        adaptiveSensitivity = to_double (to_double 0.25 + to_double (t * to_double 0.45)),
        minShapeScale = to_double (to_double 0.8 + to_double (t * to_double 0.4)),
        mergeThreshold = to_double (to_double 0.15 + to_double (t * to_double 0.35)),
        gradientConsistency = to_double (to_double 0.35 + to_double (t * to_double 0.55)),
        baseGradientOpacity = to_double (to_double 0.25 + to_double (t * to_double 0.55)) \<rparr>)"

section \<open>Path smoothing\<close>

definition chaikin_round :: "vec2 list \<Rightarrow> vec2 list" where
  "chaikin_round r =
     concat (map (\<lambda>i. let a = r ! i; b = r ! ((i + 1) mod length r) in
                   [\<lparr> vx = 0.75 * vx a + 0.25 * vx b, vy = 0.75 * vy a + 0.25 * vy b \<rparr>,
                    \<lparr> vx = 0.25 * vx a + 0.75 * vx b, vy = 0.25 * vy a + 0.75 * vy b \<rparr>])
                 [0..<length r])"

function chaikin_loop :: "nat \<Rightarrow> real \<Rightarrow> vec2 list \<Rightarrow> vec2 list" where
  "chaikin_loop it iters r =
     (if real it < iters then chaikin_loop (Suc it) iters (chaikin_round r) else r)"
  by pat_completeness auto
termination
proof (relation "measure (\<lambda>(it, iters, r). nat \<lceil>iters\<rceil> - it)")
  show "wf (measure (\<lambda>(it, iters, r). nat \<lceil>iters\<rceil> - it))" by simp
next
  fix it :: nat and iters :: real and r :: "vec2 list"
  assume "real it < iters"
  then have "int it < \<lceil>iters\<rceil>" by (simp add: less_ceiling_iff)
  then have "it < nat \<lceil>iters\<rceil>" by linarith
  then show "((Suc it, iters, chaikin_round r), (it, iters, r))
               \<in> measure (\<lambda>(it, iters, r). nat \<lceil>iters\<rceil> - it)"
    by simp
qed

declare chaikin_loop.simps [simp del]

definition chaikinSmooth :: "vec2 list \<Rightarrow> real \<Rightarrow> vec2 list" where
  "chaikinSmooth pts iters = (if iters \<le> 0 then pts else chaikin_loop 0 iters pts)"

text \<open>The rule of the specification, written on the cyclic edges of the polygon.\<close>

definition edge_cut :: "vec2 \<Rightarrow> vec2 \<Rightarrow> vec2 list" where
  "edge_cut a b =
     [\<lparr> vx = 0.75 * vx a + 0.25 * vx b, vy = 0.75 * vy a + 0.25 * vy b \<rparr>,
      \<lparr> vx = 0.25 * vx a + 0.75 * vx b, vy = 0.25 * vy a + 0.75 * vy b \<rparr>]"

definition cyclic_edges :: "vec2 list \<Rightarrow> (vec2 \<times> vec2) list" where
  "cyclic_edges r = zip r (rotate1 r)"

definition corner_cut :: "vec2 list \<Rightarrow> vec2 list" where
  "corner_cut r = concat (map (\<lambda>(a, b). edge_cut a b) (cyclic_edges r))"

section \<open>Micro-triangle culling\<close>

definition filterSmallTriangles :: "Triangle list \<Rightarrow> Triangle list" where
  "filterSmallTriangles tris =
     (if tris = [] then tris
      else let areas = sort (map area tris);
               m = areas ! (length areas div 2);
               median = (if m = 0 then 1 else m);
               cut = median * 0.28
           in filter (\<lambda>t. area t \<ge> cut) tris)"

text \<open>The median of the areas: the element of the sorted areas that the source reads, and
  the textbook median, which averages the two middle elements of a list of even length.\<close>

definition upper_median :: "real list \<Rightarrow> real" where
  "upper_median xs = sort xs ! (length xs div 2)"

definition mean_median :: "real list \<Rightarrow> real" where
  "mean_median xs =
     (if even (length xs)
      then (sort xs ! (length xs div 2 - 1) + sort xs ! (length xs div 2)) / 2
      else sort xs ! (length xs div 2))"

section \<open>Colour utilities\<close>

text \<open>
  Decimal digits of a natural number, as \<open>String(n)\<close> prints them. Strings are lists of
  8-bit characters, so only ASCII text is modelled.
\<close>

definition digit_char :: "nat \<Rightarrow> char" where
  "digit_char d = ''0123456789'' ! d"

fun show_nat :: "nat \<Rightarrow> string" where
  "show_nat n = (if n < 10 then [digit_char n] else show_nat (n div 10) @ [digit_char (n mod 10)])"

declare show_nat.simps [simp del]

definition is_digit :: "char \<Rightarrow> bool" where
  "is_digit c \<longleftrightarrow> c \<in> set ''0123456789''"

definition digit_val :: "char \<Rightarrow> nat" where
  "digit_val c = of_char c - 48"

definition read_nat :: "string \<Rightarrow> nat" where
  "read_nat ds = foldl (\<lambda>acc c. 10 * acc + digit_val c) 0 ds"

definition is_space :: "char \<Rightarrow> bool" where
  "is_space c \<longleftrightarrow> of_char c \<in> {9, 10, 11, 12, 13, 32 :: nat}"

text \<open>
  The regular expression \<open>rgb\((\d+),\s*(\d+),\s*(\d+)\)\<close> tried at the head of a string.
  Every repetition is followed by a character outside its own class, so the greedy match is
  the only one and no backtracking is needed.
\<close>

definition match_rgb_here :: "string \<Rightarrow> (string \<times> string \<times> string) option" where
  "match_rgb_here s =
     (if take 4 s \<noteq> ''rgb('' then None
      else let s1 = drop 4 s;
               d1 = takeWhile is_digit s1; s2 = dropWhile is_digit s1 in
        if d1 = [] \<or> take 1 s2 \<noteq> '','' then None
        else let s3 = dropWhile is_space (drop 1 s2);
                 d2 = takeWhile is_digit s3; s4 = dropWhile is_digit s3 in
          if d2 = [] \<or> take 1 s4 \<noteq> '','' then None
          else let s5 = dropWhile is_space (drop 1 s4);
                   d3 = takeWhile is_digit s5; s6 = dropWhile is_digit s5 in
            if d3 = [] \<or> take 1 s6 \<noteq> '')'' then None
            else Some (d1, d2, d3))"

text \<open>\<open>String.prototype.match\<close> without the global flag: the leftmost match.\<close>

fun match_rgb :: "string \<Rightarrow> (string \<times> string \<times> string) option" where
  "match_rgb [] = match_rgb_here []"
| "match_rgb (c # cs) =
     (case match_rgb_here (c # cs) of Some m \<Rightarrow> Some m | None \<Rightarrow> match_rgb cs)"

definition parseRGB :: "string \<Rightarrow> RGB" where
  "parseRGB rgb =
     (case match_rgb rgb of
        None \<Rightarrow> \<lparr> red = 0, green = 0, blue = 0 \<rparr>
      | Some (m1, m2, m3) \<Rightarrow>
          \<lparr> red = real (read_nat m1), green = real (read_nat m2), blue = real (read_nat m3) \<rparr>)"

definition colorDistance :: "RGB \<Rightarrow> RGB \<Rightarrow> real" where
  "colorDistance a b =
     (let dr = red a - red b; dg = green a - green b; db = blue a - blue b
      in sqrt (dr * dr + dg * dg + db * db))"

definition getLuminance :: "RGB \<Rightarrow> real" where
  "getLuminance c = 0.299 * red c + 0.587 * green c + 0.114 * blue c"

text \<open>\<open>Math.round\<close> rounds a half towards plus infinity.\<close>

definition js_round :: "real \<Rightarrow> real" where
  "js_round v = of_int \<lfloor>v + 1 / 2\<rfloor>"

definition blendColors :: "RGB list \<Rightarrow> RGB" where
  "blendColors colors =
     (if colors = [] then \<lparr> red = 0, green = 0, blue = 0 \<rparr>
      else let n = real (length colors) in
        \<lparr> red = js_round (foldl (\<lambda>s c. s + red c) 0 colors / n),
          green = js_round (foldl (\<lambda>s c. s + green c) 0 colors / n),
          blue = js_round (foldl (\<lambda>s c. s + blue c) 0 colors / n) \<rparr>)"

section \<open>Canvas sampling\<close>

text \<open>
  The 2D context is read only through \<open>getImageData(x, y, 1, 1).data\<close> at integer
  coordinates, so it is modelled by the function that gives the three colour bytes of a pixel.
\<close>

type_synonym canvas = "int \<Rightarrow> int \<Rightarrow> nat \<times> nat \<times> nat"

definition clamp :: "real \<Rightarrow> real \<Rightarrow> real \<Rightarrow> real" where
  "clamp v lo hi = max lo (min hi v)"

definition sampleColor :: "canvas \<Rightarrow> real \<Rightarrow> real \<Rightarrow> string" where
  "sampleColor ctx x y =
     (case ctx \<lfloor>x\<rfloor> \<lfloor>y\<rfloor> of (p0, p1, p2) \<Rightarrow>
        ''rgb('' @ show_nat p0 @ '', '' @ show_nat p1 @ '', '' @ show_nat p2 @ '')'')"

definition sampleRGB :: "canvas \<Rightarrow> real \<Rightarrow> real \<Rightarrow> RGB" where
  "sampleRGB ctx x y =
     (case ctx \<lfloor>x\<rfloor> \<lfloor>y\<rfloor> of (p0, p1, p2) \<Rightarrow>
        \<lparr> red = real p0, green = real p1, blue = real p2 \<rparr>)"

definition sampleRegionAvg :: "canvas \<Rightarrow> real \<Rightarrow> real \<Rightarrow> real \<Rightarrow> real \<Rightarrow> real \<Rightarrow> RGB" where
  "sampleRegionAvg ctx x y radius w h =
     blendColors
       (concat (map (\<lambda>dy. map (\<lambda>dx.
            sampleRGB ctx (clamp (x + dx * radius * 0.5) 0 (w - 1))
                          (clamp (y + dy * radius * 0.5) 0 (h - 1)))
          [-1, 0, 1]) [-1, 0, 1]))"

definition regionVariance :: "canvas \<Rightarrow> real \<Rightarrow> real \<Rightarrow> real \<Rightarrow> real \<Rightarrow> real \<Rightarrow> real" where
  "regionVariance ctx x y radius w h =
     (let center = sampleRGB ctx (clamp x 0 (w - 1)) (clamp y 0 (h - 1));
          steps = 8 :: nat;
          total = foldl (\<lambda>total i.
                    let angle = (real i / real steps) * pi * 2;
                        s = sampleRGB ctx (clamp (x + cos angle * radius) 0 (w - 1))
                                          (clamp (y + sin angle * radius) 0 (h - 1))
                    in total + colorDistance s center) 0 [0..<steps]
      in total / real steps)"

section \<open>Image analysis\<close>

record DominantColor =
  dcolor :: RGB
  position :: vec2
  weight :: real

record Direction =
  x1 :: real
  y1 :: real
  x2 :: real
  y2 :: real

record BaseGradient =
  colors :: "DominantColor list"
  direction :: Direction

definition grid_samples :: "canvas \<Rightarrow> real \<Rightarrow> real \<Rightarrow> DominantColor list" where
  "grid_samples ctx w h =
     (let gridSize = 6 :: nat;
          cellW = w / real gridSize; cellH = h / real gridSize
      in concat (map (\<lambda>gy. map (\<lambda>gx.
           let cx = (real gx + 0.5) * cellW;
               cy = (real gy + 0.5) * cellH;
               c = sampleRegionAvg ctx cx cy (min cellW cellH * 0.3) w h
           in \<lparr> dcolor = c, position = \<lparr> vx = cx, vy = cy \<rparr>, weight = 1 \<rparr>)
         [0..<gridSize]) [0..<gridSize]))"

text \<open>The state of the search for the most distant pair: \<open>maxDist\<close>, \<open>from\<close>, \<open>to\<close>.\<close>

definition pair_step ::
  "DominantColor list \<Rightarrow> real \<times> DominantColor \<times> DominantColor \<Rightarrow> nat \<times> nat
     \<Rightarrow> real \<times> DominantColor \<times> DominantColor" where
  "pair_step samples st ij =
     (case st of (maxDist, from, to) \<Rightarrow> case ij of (i, j) \<Rightarrow>
        let d = colorDistance (dcolor (samples ! i)) (dcolor (samples ! j)) in
        if d > maxDist then
          (if getLuminance (dcolor (samples ! i)) < getLuminance (dcolor (samples ! j))
           then (d, samples ! i, samples ! j)
           else (d, samples ! j, samples ! i))
        else (maxDist, from, to))"

definition index_pairs :: "nat \<Rightarrow> (nat \<times> nat) list" where
  "index_pairs n = concat (map (\<lambda>i. map (\<lambda>j. (i, j)) [i + 1..<n]) [0..<n])"

definition farthest_pair :: "DominantColor list \<Rightarrow> real \<times> DominantColor \<times> DominantColor" where
  "farthest_pair samples =
     foldl (pair_step samples) (0, samples ! 0, samples ! 0) (index_pairs (length samples))"

definition analyzeBaseGradient :: "canvas \<Rightarrow> real \<Rightarrow> real \<Rightarrow> BaseGradient" where
  "analyzeBaseGradient ctx w h =
     (let samples = grid_samples ctx w h in
      case farthest_pair samples of (maxDist, from, to) \<Rightarrow>
        \<lparr> colors = samples,
          direction = \<lparr> x1 = vx (position from) / w, y1 = vy (position from) / h,
                        x2 = vx (position to) / w, y2 = vy (position to) / h \<rparr> \<rparr>)"

section \<open>Delaunay triangulation (Bowyer-Watson)\<close>

type_synonym tri = "nat \<times> nat \<times> nat"

definition inCircumcircle :: "vec2 \<Rightarrow> vec2 \<Rightarrow> vec2 \<Rightarrow> vec2 \<Rightarrow> bool" where
  "inCircumcircle p a b c =
     (let ax = vx a - vx p; ay = vy a - vy p;
          bx = vx b - vx p; by' = vy b - vy p;
          cx = vx c - vx p; cy = vy c - vy p;
          det = (ax * ax + ay * ay) * (bx * cy - cx * by')
                - (bx * bx + by' * by') * (ax * cy - cx * ay)
                + (cx * cx + cy * cy) * (ax * by' - bx * ay);
          ori = (vx a - vx c) * (vy b - vy c) - (vy a - vy c) * (vx b - vx c)
      in if ori > 0 then det > 0 else det < 0)"

text \<open>
  The bounding box. The source starts from plus and minus infinity, which the first point
  replaces; the fold below starts from the state after that first point, and is only used on
  a list of at least three points.
\<close>

definition bbox_step :: "real \<times> real \<times> real \<times> real \<Rightarrow> vec2 \<Rightarrow> real \<times> real \<times> real \<times> real" where
  "bbox_step bb p =
     (case bb of (minX, minY, maxX, maxY) \<Rightarrow>
        (if vx p < minX then vx p else minX, if vy p < minY then vy p else minY,
         if vx p > maxX then vx p else maxX, if vy p > maxY then vy p else maxY))"

definition bbox :: "vec2 list \<Rightarrow> real \<times> real \<times> real \<times> real" where
  "bbox pts = foldl bbox_step (vx (hd pts), vy (hd pts), vx (hd pts), vy (hd pts)) pts"

definition superTri :: "vec2 list \<Rightarrow> vec2 list" where
  "superTri pts =
     (case bbox pts of (minX, minY, maxX, maxY) \<Rightarrow>
        let dx = maxX - minX; dy = maxY - minY; d = max dx dy;
            mx = (minX + maxX) / 2; my = (minY + maxY) / 2
        in [\<lparr> vx = mx - 20 * d, vy = my - d \<rparr>,
            \<lparr> vx = mx, vy = my + 20 * d \<rparr>,
            \<lparr> vx = mx + 20 * d, vy = my - d \<rparr>])"

definition tri_edges :: "tri \<Rightarrow> (nat \<times> nat) list" where
  "tri_edges t = (case t of (t0, t1, t2) \<Rightarrow> [(t0, t1), (t1, t2), (t2, t0)])"

definition same_edge :: "nat \<times> nat \<Rightarrow> nat \<times> nat \<Rightarrow> bool" where
  "same_edge e oe \<longleftrightarrow> (fst e = fst oe \<and> snd e = snd oe) \<or> (fst e = snd oe \<and> snd e = fst oe)"

text \<open>
  The source compares triangles by object identity (\<open>t === o\<close>, \<open>bad.includes(t)\<close>). Every
  triangle object sits at one position of \<open>tris\<close>, so a triangle is paired with its position
  and the positions are compared.
\<close>

definition shared :: "(nat \<times> tri) list \<Rightarrow> nat \<Rightarrow> nat \<times> nat \<Rightarrow> bool" where
  "shared bad k e \<longleftrightarrow>
     list_ex (\<lambda>(k', o'). k' \<noteq> k \<and> list_ex (\<lambda>oe2. same_edge e oe2) (tri_edges o')) bad"

definition bad_tris :: "vec2 list \<Rightarrow> vec2 \<Rightarrow> tri list \<Rightarrow> (nat \<times> tri) list" where
  "bad_tris all p tris =
     filter (\<lambda>(k, t). case t of (t0, t1, t2) \<Rightarrow>
               inCircumcircle p (all ! t0) (all ! t1) (all ! t2))
       (zip [0..<length tris] tris)"

definition cavity_poly :: "(nat \<times> tri) list \<Rightarrow> (nat \<times> nat) list" where
  "cavity_poly bad =
     concat (map (\<lambda>(k, t). filter (\<lambda>e. \<not> shared bad k e) (tri_edges t)) bad)"

definition insert_point :: "vec2 list \<Rightarrow> vec2 list \<Rightarrow> tri list \<Rightarrow> nat \<Rightarrow> tri list" where
  "insert_point pts all tris i =
     (let p = pts ! i;
          bad = bad_tris all p tris;
          poly = cavity_poly bad;
          kept = map snd (filter (\<lambda>kt. kt \<notin> set bad) (zip [0..<length tris] tris))
      in kept @ map (\<lambda>e. (fst e, snd e, i)) poly)"

definition all_tris :: "vec2 list \<Rightarrow> tri list" where
  "all_tris pts =
     (let n = length pts;
          all = pts @ superTri pts
      in foldl (insert_point pts all) [(n, n + 1, n + 2)] [0..<n])"

text \<open>The triangles that \<open>run\<close> keeps, before they are flattened into \<open>triangleIndices\<close>.\<close>

definition delaunay_tris :: "vec2 list \<Rightarrow> tri list" where
  "delaunay_tris pts =
     (let n = length pts in
      if n < 3 then []
      else filter (\<lambda>t. case t of (t0, t1, t2) \<Rightarrow> t0 < n \<and> t1 < n \<and> t2 < n) (all_tris pts))"

definition triangleIndices :: "vec2 list \<Rightarrow> nat list" where
  "triangleIndices pts = concat (map (\<lambda>t. case t of (t0, t1, t2) \<Rightarrow> [t0, t1, t2]) (delaunay_tris pts))"

section \<open>Delaunay triangulation in double arithmetic\<close>

text \<open>
  The same loop with the arithmetic of the source: every subtraction, product and sum of
  \<open>inCircumcircle\<close> and of the super-triangle is rounded to a double. The bounding box
  only compares, and the loop over the triangles only handles indices, so \<open>bbox\<close>,
  \<open>cavity_poly\<close> and \<open>shared\<close> are those of the exact model.
\<close>

definition inCircumcircle_double :: "vec2 \<Rightarrow> vec2 \<Rightarrow> vec2 \<Rightarrow> vec2 \<Rightarrow> bool" where
  "inCircumcircle_double p a b c =
     (let ax = dsub (vx a) (vx p); ay = dsub (vy a) (vy p);
          bx = dsub (vx b) (vx p); by' = dsub (vy b) (vy p);
          cx = dsub (vx c) (vx p); cy = dsub (vy c) (vy p);
          det = dadd (dsub (dmul (dadd (dmul ax ax) (dmul ay ay)) (dsub (dmul bx cy) (dmul cx by')))
                           (dmul (dadd (dmul bx bx) (dmul by' by')) (dsub (dmul ax cy) (dmul cx ay))))
                     (dmul (dadd (dmul cx cx) (dmul cy cy)) (dsub (dmul ax by') (dmul bx ay)));
          ori = dsub (dmul (dsub (vx a) (vx c)) (dsub (vy b) (vy c)))
                     (dmul (dsub (vy a) (vy c)) (dsub (vx b) (vx c)))
      in if ori > 0 then det > 0 else det < 0)"

definition superTri_double :: "vec2 list \<Rightarrow> vec2 list" where
  "superTri_double pts =
     (case bbox pts of (minX, minY, maxX, maxY) \<Rightarrow>
        let dx = dsub maxX minX; dy = dsub maxY minY; d = max dx dy;
            mx = ddiv (dadd minX maxX) 2; my = ddiv (dadd minY maxY) 2
        in [\<lparr> vx = dsub mx (dmul 20 d), vy = dsub my d \<rparr>,
            \<lparr> vx = mx, vy = dadd my (dmul 20 d) \<rparr>,
            \<lparr> vx = dadd mx (dmul 20 d), vy = dsub my d \<rparr>])"

definition bad_tris_double :: "vec2 list \<Rightarrow> vec2 \<Rightarrow> tri list \<Rightarrow> (nat \<times> tri) list" where
  "bad_tris_double all p tris =
     filter (\<lambda>(k, t). case t of (t0, t1, t2) \<Rightarrow>
               inCircumcircle_double p (all ! t0) (all ! t1) (all ! t2))
       (zip [0..<length tris] tris)"

definition insert_point_double :: "vec2 list \<Rightarrow> vec2 list \<Rightarrow> tri list \<Rightarrow> nat \<Rightarrow> tri list" where
  "insert_point_double pts all tris i =
     (let p = pts ! i;
          bad = bad_tris_double all p tris;
          poly = cavity_poly bad;
          kept = map snd (filter (\<lambda>kt. kt \<notin> set bad) (zip [0..<length tris] tris))
      in kept @ map (\<lambda>e. (fst e, snd e, i)) poly)"

definition all_tris_double :: "vec2 list \<Rightarrow> tri list" where
  "all_tris_double pts =
     (let n = length pts;
          all = pts @ superTri_double pts
      in foldl (insert_point_double pts all) [(n, n + 1, n + 2)] [0..<n])"

definition delaunay_tris_double :: "vec2 list \<Rightarrow> tri list" where
  "delaunay_tris_double pts =
     (let n = length pts in
      if n < 3 then []
      else filter (\<lambda>t. case t of (t0, t1, t2) \<Rightarrow> t0 < n \<and> t1 < n \<and> t2 < n) (all_tris_double pts))"

section \<open>Triangulation\<close>

text \<open>
  The loop of \<open>triangulate\<close> reads \<open>idx\<close> three entries at a time. The length of \<open>idx\<close> is
  a multiple of three, so the last equation is never reached from \<open>triangleIndices\<close>.
\<close>

fun triples :: "nat list \<Rightarrow> tri list" where
  "triples (a # b # c # rest) = (a, b, c) # triples rest"
| "triples _ = []"

definition mk_triangle :: "canvas \<Rightarrow> vec2 list \<Rightarrow> real \<Rightarrow> real \<Rightarrow> tri \<Rightarrow> Triangle" where
  "mk_triangle ctx pts w h t =
     (case t of (i0, i1, i2) \<Rightarrow>
      let p0 = pts ! i0; p1 = pts ! i1; p2 = pts ! i2;
          c0 = sampleColor ctx (clamp (vx p0) 0 (w - 1)) (clamp (vy p0) 0 (h - 1));
          c1 = sampleColor ctx (clamp (vx p1) 0 (w - 1)) (clamp (vy p1) 0 (h - 1));
          c2 = sampleColor ctx (clamp (vx p2) 0 (w - 1)) (clamp (vy p2) 0 (h - 1));
          cen = \<lparr> vx = (vx p0 + vx p1 + vx p2) / 3, vy = (vy p0 + vy p1 + vy p2) / 3 \<rparr>;
          ar = \<bar>(vx p1 - vx p0) * (vy p2 - vy p0) - (vx p2 - vx p0) * (vy p1 - vy p0)\<bar> / 2;
          rgb0 = parseRGB c0; rgb1 = parseRGB c1; rgb2 = parseRGB c2;
          avg = blendColors [rgb0, rgb1, rgb2];
          variance = (colorDistance rgb0 avg + colorDistance rgb1 avg + colorDistance rgb2 avg) / 3
      in \<lparr> points = (\<lparr> vx = vx p0, vy = vy p0, color = c0 \<rparr>,
                      \<lparr> vx = vx p1, vy = vy p1, color = c1 \<rparr>,
                      \<lparr> vx = vx p2, vy = vy p2, color = c2 \<rparr>),
           centroid = cen, area = ar, colorVariance = variance \<rparr>)"

definition triangulate :: "canvas \<Rightarrow> vec2 list \<Rightarrow> real \<Rightarrow> real \<Rightarrow> Triangle list" where
  "triangulate ctx pts w h =
     filterSmallTriangles (map (mk_triangle ctx pts w h) (triples (triangleIndices pts)))"

section \<open>Shape classification\<close>

text \<open>
  \<open>Number.prototype.toFixed(1)\<close> for magnitudes below \<open>10^21\<close>: the sign, then the integer
  \<open>n\<close> nearest to ten times the magnitude (the larger one on a tie), printed with one digit
  after the point.
\<close>

definition toFixed1 :: "real \<Rightarrow> string" where
  "toFixed1 v =
     (let n = nat \<lfloor>\<bar>v\<bar> * 10 + 1 / 2\<rfloor>
      in (if v < 0 then ''-'' else []) @ show_nat (n div 10) @ ''.'' @ show_nat (n mod 10))"

definition edgeKey :: "real \<Rightarrow> real \<Rightarrow> real \<Rightarrow> real \<Rightarrow> string" where
  "edgeKey xa ya xb yb =
     (let a = toFixed1 xa @ '','' @ toFixed1 ya;
          b = toFixed1 xb @ '','' @ toFixed1 yb
      in if a < b then a @ ''-'' @ b else b @ ''-'' @ a)"

definition tri_edge_keys :: "Triangle \<Rightarrow> string list" where
  "tri_edge_keys t =
     (case points t of (q0, q1, q2) \<Rightarrow>
        [edgeKey (vx q0) (vy q0) (vx q1) (vy q1),
         edgeKey (vx q1) (vy q1) (vx q2) (vy q2),
         edgeKey (vx q2) (vy q2) (vx q0) (vy q0)])"

text \<open>
  \<open>edgeMap\<close> is a \<open>Map\<close>, which keeps its keys in insertion order: an association list.
  \<open>am_push e i\<close> is \<open>if (!edgeMap.has(e)) edgeMap.set(e, []); edgeMap.get(e).push(i)\<close>.
\<close>

fun am_push :: "string \<Rightarrow> nat \<Rightarrow> (string \<times> nat list) list \<Rightarrow> (string \<times> nat list) list" where
  "am_push e i [] = [(e, [i])]"
| "am_push e i ((e', indices) # m) =
     (if e' = e then (e', indices @ [i]) # m else (e', indices) # am_push e i m)"

definition build_edgeMap :: "Triangle list \<Rightarrow> (string \<times> nat list) list" where
  "build_edgeMap tris =
     foldl (\<lambda>m i. foldl (\<lambda>m e. am_push e i m) m (tri_edge_keys (tris ! i))) [] [0..<length tris]"

definition nb_step :: "nat list list \<Rightarrow> string \<times> nat list \<Rightarrow> nat list list" where
  "nb_step neighbors entry =
     (case entry of (e, indices) \<Rightarrow>
        if length indices = 2 then
          let i0 = indices ! 0; i1 = indices ! 1;
              neighbors1 = neighbors[i0 := neighbors ! i0 @ [i1]]
          in neighbors1[i1 := neighbors1 ! i1 @ [i0]]
        else neighbors)"

definition build_neighbors :: "Triangle list \<Rightarrow> nat list list" where
  "build_neighbors tris = foldl nb_step (replicate (length tris) []) (build_edgeMap tris)"

definition tri_blend :: "Triangle \<Rightarrow> RGB" where
  "tri_blend t = (case points t of (q0, q1, q2) \<Rightarrow>
                    blendColors (map (\<lambda>p. parseRGB (color p)) [q0, q1, q2]))"

definition similar :: "Triangle list \<Rightarrow> real \<Rightarrow> nat \<Rightarrow> nat \<Rightarrow> bool" where
  "similar tris threshold i ni \<longleftrightarrow>
     colorDistance (tri_blend (tris ! i)) (tri_blend (tris ! ni)) / 441.67 < threshold"

definition classify_step ::
  "Triangle list \<Rightarrow> real \<Rightarrow> real \<Rightarrow> nat list list \<Rightarrow> Triangle list \<times> Triangle list \<Rightarrow> nat
     \<Rightarrow> Triangle list \<times> Triangle list" where
  "classify_step tris threshold avgArea neighbors pd i =
     (case pd of (primary, detail) \<Rightarrow>
        let t = tris ! i;
            nb = neighbors ! i;
            similarCount = length (filter (similar tris threshold i) nb)
        in if area t \<ge> avgArea * 0.55 \<and> similarCount \<ge> 2
           then (primary @ [t], detail) else (primary, detail @ [t]))"

definition classifyShapes :: "Triangle list \<Rightarrow> real \<Rightarrow> Triangle list \<times> Triangle list" where
  "classifyShapes tris threshold =
     (let avgArea = foldl (\<lambda>s t. s + area t) 0 tris / real (length tris);
          neighbors = build_neighbors tris
      in foldl (classify_step tris threshold avgArea neighbors) ([], []) [0..<length tris])"

section \<open>Adaptive Poisson disk sampling\<close>

text \<open>
  \<open>Math.random\<close> is a stream of draws \<open>draws 0, draws 1, \<dots>\<close>; the state counts how many
  have been taken. The grid holds one index or \<open>null\<close> per cell and is read only inside its
  bounds, so it is a partial map on the cell coordinates.
\<close>

record poisson_env =
  env_ctx :: canvas
  env_w :: real
  env_h :: real
  env_base :: real
  env_settings :: MoodSettings
  env_maxAttempts :: nat
  env_draws :: "nat \<Rightarrow> real"

record poisson_state =
  ps_pts :: "vec2 list"
  ps_active :: "nat list"
  ps_grid :: "int \<times> int \<Rightarrow> nat option"
  ps_drawn :: nat

definition cell_size :: "poisson_env \<Rightarrow> real" where
  "cell_size env = env_base env / sqrt 2"

definition grid_w :: "poisson_env \<Rightarrow> int" where
  "grid_w env = \<lceil>env_w env / cell_size env\<rceil>"

definition grid_h :: "poisson_env \<Rightarrow> int" where
  "grid_h env = \<lceil>env_h env / cell_size env\<rceil>"

definition localDist :: "poisson_env \<Rightarrow> real \<Rightarrow> real \<Rightarrow> real" where
  "localDist env x y =
     (let v = regionVariance (env_ctx env) x y (env_base env) (env_w env) (env_h env);
          factor = max 0.35 (1 - (v / 255) * adaptiveSensitivity (env_settings env))
      in env_base env * factor * minShapeScale (env_settings env))"

definition tooClose :: "poisson_env \<Rightarrow> poisson_state \<Rightarrow> real \<Rightarrow> real \<Rightarrow> real \<Rightarrow> bool" where
  "tooClose env st x y md =
     (let gx = \<lfloor>x / cell_size env\<rfloor>; gy = \<lfloor>y / cell_size env\<rfloor>;
          r = \<lceil>md / cell_size env\<rceil> + 1
      in list_ex (\<lambda>i. list_ex (\<lambda>j.
           case ps_grid st (i, j) of
             None \<Rightarrow> False
           | Some idx \<Rightarrow>
               let dx = vx (ps_pts st ! idx) - x; dy = vy (ps_pts st ! idx) - y
               in dx * dx + dy * dy < md * md)
         [max 0 (gy - r) .. min (grid_h env - 1) (gy + r)])
       [max 0 (gx - r) .. min (grid_w env - 1) (gx + r)])"

definition addPoint :: "poisson_env \<Rightarrow> poisson_state \<Rightarrow> real \<Rightarrow> real \<Rightarrow> poisson_state" where
  "addPoint env st x y =
     (let idx = length (ps_pts st);
          gx = \<lfloor>x / cell_size env\<rfloor>; gy = \<lfloor>y / cell_size env\<rfloor>
      in st \<lparr> ps_pts := ps_pts st @ [\<lparr> vx = x, vy = y \<rparr>],
              ps_active := ps_active st @ [idx],
              ps_grid := (if gx \<ge> 0 \<and> gx < grid_w env \<and> gy \<ge> 0 \<and> gy < grid_h env
                          then (ps_grid st)((gx, gy) \<mapsto> idx) else ps_grid st) \<rparr>)"

text \<open>The attempts around one active point: the result says whether a point was added.\<close>

fun try_attempts :: "poisson_env \<Rightarrow> nat \<Rightarrow> vec2 \<Rightarrow> real \<Rightarrow> poisson_state \<Rightarrow> bool \<times> poisson_state" where
  "try_attempts env 0 p ld st = (False, st)"
| "try_attempts env (Suc k) p ld st =
     (let angle = env_draws env (ps_drawn st) * pi * 2;
          dist = ld + env_draws env (ps_drawn st + 1) * ld;
          nx = vx p + cos angle * dist;
          ny = vy p + sin angle * dist;
          st1 = st \<lparr> ps_drawn := ps_drawn st + 2 \<rparr>
      in if nx \<ge> 0 \<and> nx < env_w env \<and> ny \<ge> 0 \<and> ny < env_h env
         then (let nld = localDist env nx ny
               in if \<not> tooClose env st1 nx ny nld then (True, addPoint env st1 nx ny)
                  else try_attempts env k p ld st1)
         else try_attempts env k p ld st1)"

text \<open>
  The loop \<open>while (active.length)\<close> may run for ever, so it takes fuel: one unit per round,
  and \<open>None\<close> when the fuel is gone before the active list is empty.
\<close>

fun poisson_loop :: "poisson_env \<Rightarrow> nat \<Rightarrow> poisson_state \<Rightarrow> vec2 list option" where
  "poisson_loop env fuel st =
     (if ps_active st = [] then Some (ps_pts st)
      else case fuel of
        0 \<Rightarrow> None
      | Suc fuel' \<Rightarrow>
          let ri = nat \<lfloor>env_draws env (ps_drawn st) * real (length (ps_active st))\<rfloor>;
              pi' = ps_active st ! ri;
              p = ps_pts st ! pi';
              st0 = st \<lparr> ps_drawn := ps_drawn st + 1 \<rparr>;
              ld = localDist env (vx p) (vy p)
          in case try_attempts env (env_maxAttempts env) p ld st0 of
               (found, st1) \<Rightarrow>
                 if \<not> found
                 then poisson_loop env fuel'
                        (st1 \<lparr> ps_active := take ri (ps_active st1) @ drop (Suc ri) (ps_active st1) \<rparr>)
                 else poisson_loop env fuel' st1)"

declare poisson_loop.simps [simp del]

definition adaptivePoissonSampling :: "poisson_env \<Rightarrow> nat \<Rightarrow> vec2 list option" where
  "adaptivePoissonSampling env fuel =
     poisson_loop env fuel
       (addPoint env \<lparr> ps_pts = [], ps_active = [], ps_grid = (\<lambda>_. None), ps_drawn = 0 \<rparr>
          (env_w env / 2) (env_h env / 2))"

text \<open>The spacing of the specification at a point of the plane, and the Euclidean distance.\<close>

definition localSpacing :: "poisson_env \<Rightarrow> vec2 \<Rightarrow> real" where
  "localSpacing env p =
     env_base env
     * max 0.35 (1 - (regionVariance (env_ctx env) (vx p) (vy p) (env_base env) (env_w env) (env_h env) / 255)
                       * adaptiveSensitivity (env_settings env))
     * minShapeScale (env_settings env)"

definition distance :: "vec2 \<Rightarrow> vec2 \<Rightarrow> real" where
  "distance a b = sqrt ((vx a - vx b)\<^sup>2 + (vy a - vy b)\<^sup>2)"

section \<open>Specification-level notions for the base gradient\<close>

text \<open>The sample that \<open>analyzeBaseGradient\<close> takes in the grid cell \<open>(gx, gy)\<close>.\<close>

definition cell_sample :: "canvas \<Rightarrow> real \<Rightarrow> real \<Rightarrow> nat \<Rightarrow> nat \<Rightarrow> DominantColor" where
  "cell_sample ctx w h gx gy =
     \<lparr> dcolor = sampleRegionAvg ctx ((real gx + 0.5) * (w / 6)) ((real gy + 0.5) * (h / 6))
                  (min (w / 6) (h / 6) * 0.3) w h,
       position = \<lparr> vx = (real gx + 0.5) * (w / 6), vy = (real gy + 0.5) * (h / 6) \<rparr>,
       weight = 1 \<rparr>"

definition pair_inv ::
  "DominantColor list \<Rightarrow> (nat \<times> nat) list \<Rightarrow> real \<times> DominantColor \<times> DominantColor \<Rightarrow> bool" where
  "pair_inv samples ps st \<longleftrightarrow>
     (case st of (m, f, t) \<Rightarrow>
        f \<in> set samples \<and> t \<in> set samples \<and>
        m = colorDistance (dcolor f) (dcolor t) \<and>
        getLuminance (dcolor f) \<le> getLuminance (dcolor t) \<and>
        (\<forall>(i, j) \<in> set ps. colorDistance (dcolor (samples ! i)) (dcolor (samples ! j)) \<le> m))"

section \<open>Specification-level notions for the classification\<close>

text \<open>
  \<open>holders tris e\<close> lists, in the order of the triangles, the triangle of every edge whose
  key is \<open>e\<close>; a triangle with two edges of that key is listed twice.
\<close>

definition holders :: "Triangle list \<Rightarrow> string \<Rightarrow> nat list" where
  "holders tris e =
     concat (map (\<lambda>i. map (\<lambda>_. i) (filter (\<lambda>e'. e' = e) (tri_edge_keys (tris ! i))))
               [0..<length tris])"

definition other_holder :: "Triangle list \<Rightarrow> nat \<Rightarrow> string \<Rightarrow> nat" where
  "other_holder tris i e =
     (if holders tris e ! 0 = i then holders tris e ! 1 else holders tris e ! 0)"

text \<open>
  One entry for each edge of triangle \<open>i\<close> whose key has exactly two holders: the holder on
  the other side of that edge.
\<close>

definition shared_edge_neighbors :: "Triangle list \<Rightarrow> nat \<Rightarrow> nat list" where
  "shared_edge_neighbors tris i =
     map (other_holder tris i)
       (filter (\<lambda>e. length (holders tris e) = 2) (tri_edge_keys (tris ! i)))"

definition mean_area :: "Triangle list \<Rightarrow> real" where
  "mean_area tris = sum_list (map area tris) / real (length tris)"

text \<open>
  The rule of the specification, which is also the comment in the source (a larger area and
  at least 2 similar neighbors): the similar triangles among the neighbouring triangles are
  counted, each neighbouring triangle once. \<open>primary_computed\<close> is the test that the loops
  of the source end up evaluating: it runs over the entries of the neighbour list, one entry
  for every shared edge.
\<close>

definition primary_rule_stated :: "Triangle list \<Rightarrow> real \<Rightarrow> nat \<Rightarrow> bool" where
  "primary_rule_stated tris threshold i \<longleftrightarrow>
     area (tris ! i) \<ge> 0.55 * mean_area tris \<and>
     2 \<le> length (filter (similar tris threshold i) (remdups (shared_edge_neighbors tris i)))"

definition primary_computed :: "Triangle list \<Rightarrow> real \<Rightarrow> nat \<Rightarrow> bool" where
  "primary_computed tris threshold i \<longleftrightarrow>
     area (tris ! i) \<ge> 0.55 * mean_area tris \<and>
     2 \<le> length (filter (similar tris threshold i) (shared_edge_neighbors tris i))"

text \<open>Auxiliary notions for the proof: the entries of the edge map as a lookup function, the
  sequence of pushes into it, and what one entry adds to the neighbour list of a triangle.\<close>

definition lookup :: "(string \<times> nat list) list \<Rightarrow> string \<Rightarrow> nat list" where
  "lookup m e = (case map_of m e of None \<Rightarrow> [] | Some l \<Rightarrow> l)"

definition pushes :: "Triangle list \<Rightarrow> nat list \<Rightarrow> (string \<times> nat) list" where
  "pushes tris js = concat (map (\<lambda>i. map (\<lambda>e. (e, i)) (tri_edge_keys (tris ! i))) js)"

definition contrib :: "nat \<Rightarrow> string \<times> nat list \<Rightarrow> nat list" where
  "contrib i entry =
     (case entry of (e, l) \<Rightarrow>
        if length l = 2
        then (if l ! 0 = i then [l ! 1] else []) @ (if l ! 1 = i then [l ! 0] else [])
        else [])"

section \<open>Specification-level notions for the triangulation\<close>

text \<open>
  The circumcircle of a triangle, by the usual formula for its centre, and what it means for
  a point to lie in its interior. These are exact: they speak about the points themselves.
\<close>

definition sqdist :: "vec2 \<Rightarrow> vec2 \<Rightarrow> real" where
  "sqdist p q = (vx p - vx q) * (vx p - vx q) + (vy p - vy q) * (vy p - vy q)"

definition circumcenter :: "vec2 \<Rightarrow> vec2 \<Rightarrow> vec2 \<Rightarrow> vec2" where
  "circumcenter a b c =
     (let D = 2 * (vx a * (vy b - vy c) + vx b * (vy c - vy a) + vx c * (vy a - vy b));
          a2 = vx a * vx a + vy a * vy a;
          b2 = vx b * vx b + vy b * vy b;
          c2 = vx c * vx c + vy c * vy c
      in \<lparr> vx = (a2 * (vy b - vy c) + b2 * (vy c - vy a) + c2 * (vy a - vy b)) / D,
           vy = (a2 * (vx c - vx b) + b2 * (vx a - vx c) + c2 * (vx b - vx a)) / D \<rparr>)"

definition inside_circumcircle :: "vec2 \<Rightarrow> vec2 \<Rightarrow> vec2 \<Rightarrow> vec2 \<Rightarrow> bool" where
  "inside_circumcircle q a b c \<longleftrightarrow>
     sqdist q (circumcenter a b c) < sqdist a (circumcenter a b c)"

section \<open>Example inputs\<close>

definition tri_of_area :: "real \<Rightarrow> Triangle" where
  "tri_of_area a =
     \<lparr> points = (\<lparr> vx = 0, vy = 0, color = [] \<rparr>, \<lparr> vx = 0, vy = 0, color = [] \<rparr>,
                  \<lparr> vx = 0, vy = 0, color = [] \<rparr>),
       centroid = \<lparr> vx = 0, vy = 0 \<rparr>, area = a, colorVariance = 0 \<rparr>"

definition corner3 :: "vec2 list" where
  "corner3 = [\<lparr> vx = 0, vy = 0 \<rparr>, \<lparr> vx = 1, vy = 0 \<rparr>, \<lparr> vx = 0, vy = 1 \<rparr>]"

definition black_canvas :: canvas where
  "black_canvas = (\<lambda>_ _. (0, 0, 0))"

text \<open>
  A run of the sampler on a uniform image of 67 by 67 pixels at mood 0, with the default
  30 attempts. The first fifteen draws are chosen; every later draw is \<open>3/4\<close>.
\<close>

definition spacing_draws :: "nat \<Rightarrow> real" where
  "spacing_draws n =
     (if n < 15
      then [0, 1 / 2, 47 / 64, 1 / 2, 3 / 4, 47 / 64, 2 / 3, 0, 1 / 192,
            3 / 4, 1 / 4, 1 / 192, 4 / 5, 0, 1 / 24] ! n
      else 3 / 4)"

definition spacing_env :: poisson_env where
  "spacing_env =
     \<lparr> env_ctx = black_canvas, env_w = 67, env_h = 67,
       env_base = moodToMinDistance 0 67 67, env_settings = moodToSettings 0,
       env_maxAttempts = 30, env_draws = spacing_draws \<rparr>"

definition spacing_pts :: "vec2 list" where
  "spacing_pts =
     [\<lparr> vx = 67 / 2, vy = 67 / 2 \<rparr>, \<lparr> vx = 1 / 5, vy = 67 / 2 \<rparr>, \<lparr> vx = 1 / 5, vy = 1 / 5 \<rparr>,
      \<lparr> vx = 39 / 2, vy = 1 / 5 \<rparr>, \<lparr> vx = 39 / 2, vy = 39 / 2 \<rparr>, \<lparr> vx = 79 / 2, vy = 39 / 2 \<rparr>]"

text \<open>The states of that run after the centre point and after each of the five accepted points.\<close>

definition spacing_state :: "nat \<Rightarrow> (int \<times> int \<Rightarrow> nat option) \<Rightarrow> poisson_state" where
  "spacing_state k g =
     \<lparr> ps_pts = take (Suc k) spacing_pts, ps_active = [0..<Suc k], ps_grid = g, ps_drawn = 3 * k \<rparr>"

definition spacing_grid :: "nat \<Rightarrow> int \<times> int \<Rightarrow> nat option" where
  "spacing_grid k =
     (if k = 0 then [(1, 1) \<mapsto> 0]
      else if k = 1 then [(1, 1) \<mapsto> 0, (0, 1) \<mapsto> 1]
      else if k = 2 then [(1, 1) \<mapsto> 0, (0, 1) \<mapsto> 1, (0, 0) \<mapsto> 2]
      else if k = 3 then [(1, 1) \<mapsto> 0, (0, 1) \<mapsto> 1, (0, 0) \<mapsto> 2, (1, 0) \<mapsto> 3]
      else if k = 4 then [(1, 1) \<mapsto> 0, (0, 1) \<mapsto> 1, (0, 0) \<mapsto> 2, (1, 0) \<mapsto> 3, (1, 1) \<mapsto> 4]
      else [(1, 1) \<mapsto> 0, (0, 1) \<mapsto> 1, (0, 0) \<mapsto> 2, (1, 0) \<mapsto> 3, (1, 1) \<mapsto> 4, (2, 1) \<mapsto> 5])"

text \<open>A triangle that will be given twice to \<open>classifyShapes\<close>.\<close>

definition dup_tri :: Triangle where
  "dup_tri =
     \<lparr> points = (\<lparr> vx = 0, vy = 0, color = ''rgb(10, 20, 30)'' \<rparr>,
                  \<lparr> vx = 10, vy = 0, color = ''rgb(10, 20, 30)'' \<rparr>,
                  \<lparr> vx = 0, vy = 10, color = ''rgb(10, 20, 30)'' \<rparr>),
       centroid = \<lparr> vx = 10 / 3, vy = 10 / 3 \<rparr>, area = 50, colorVariance = 0 \<rparr>"

text \<open>
  Four points, three of them corners of the unit square; the fourth lies one unit in the last
  place to the left of the fourth corner, so just inside the circle through the three. With
  them the super-triangle that the source builds for these points.
\<close>

definition near_circle4 :: "vec2 list" where
  "near_circle4 = [\<lparr> vx = 1, vy = 0 \<rparr>, \<lparr> vx = 0, vy = 1 \<rparr>, \<lparr> vx = 0, vy = 0 \<rparr>,
                   \<lparr> vx = 1 - 1 / 2 ^ 53, vy = 1 \<rparr>]"

definition near_all :: "vec2 list" where
  "near_all = near_circle4 @
     [\<lparr> vx = - 39 / 2, vy = - 1 / 2 \<rparr>, \<lparr> vx = 1 / 2, vy = 41 / 2 \<rparr>, \<lparr> vx = 41 / 2, vy = - 1 / 2 \<rparr>]"

section \<open>Verified properties\<close>

subsection \<open>Mood mapping\<close>

text \<open>
  Claim C10. Whatever the mood, the width and the height, \<open>moodToMinDistance\<close> returns at
  least 24: the base spacing never drops below 24 pixels.
\<close>

theorem moodToMinDistance_at_least_24: "moodToMinDistance mood width height \<ge> 24"
  by (simp add: moodToMinDistance_def Let_def)

lemma pathSmoothing_eq:
  "pathSmoothing (moodToSettings m) = max 1 (of_int \<lfloor>m / 100 * 4\<rfloor>)"
  by (simp add: moodToSettings_def Let_def)

lemma pathSmoothing_mono:
  assumes "m1 \<le> m2"
  shows "pathSmoothing (moodToSettings m1) \<le> pathSmoothing (moodToSettings m2)"
proof -
  have "m1 / 100 * 4 \<le> m2 / 100 * 4" using assms by simp
  then have "\<lfloor>m1 / 100 * 4\<rfloor> \<le> \<lfloor>m2 / 100 * 4\<rfloor>" by (rule floor_mono)
  then have "(of_int \<lfloor>m1 / 100 * 4\<rfloor> :: real) \<le> of_int \<lfloor>m2 / 100 * 4\<rfloor>" by simp
  then have "max (1::real) (of_int \<lfloor>m1 / 100 * 4\<rfloor>) \<le> max 1 (of_int \<lfloor>m2 / 100 * 4\<rfloor>)"
    by (rule max.mono [OF order_refl])
  then show ?thesis by (simp only: pathSmoothing_eq)
qed

text \<open>
  In exact arithmetic every field of \<open>moodToSettings\<close> lies in its documented range at
  mood 0 and at mood 100, and every field is monotonic in the mood: \<open>shapeOpacity\<close> never
  increases, the seven other fields never decrease.
\<close>

lemma moodToSettings_exact_ranges_monotone:
  "in_documented_range (moodToSettings 0) \<and> in_documented_range (moodToSettings 100) \<and>
   (m1 \<le> m2 \<longrightarrow>
      pathSmoothing (moodToSettings m1) \<le> pathSmoothing (moodToSettings m2) \<and>
      overlapAmount (moodToSettings m1) \<le> overlapAmount (moodToSettings m2) \<and>
      shapeOpacity (moodToSettings m2) \<le> shapeOpacity (moodToSettings m1) \<and>
      adaptiveSensitivity (moodToSettings m1) \<le> adaptiveSensitivity (moodToSettings m2) \<and>
      minShapeScale (moodToSettings m1) \<le> minShapeScale (moodToSettings m2) \<and>
      mergeThreshold (moodToSettings m1) \<le> mergeThreshold (moodToSettings m2) \<and>
      gradientConsistency (moodToSettings m1) \<le> gradientConsistency (moodToSettings m2) \<and>
      baseGradientOpacity (moodToSettings m1) \<le> baseGradientOpacity (moodToSettings m2))"
proof (intro conjI impI)
  show "in_documented_range (moodToSettings 0)"
    by (simp add: in_documented_range_def moodToSettings_def)
  show "in_documented_range (moodToSettings 100)"
    by (simp add: in_documented_range_def moodToSettings_def)
next
  assume "m1 \<le> m2"
  then show "pathSmoothing (moodToSettings m1) \<le> pathSmoothing (moodToSettings m2)"
    by (rule pathSmoothing_mono)
qed (simp_all add: moodToSettings_def Let_def)

text \<open>Rounding to a double, evaluated at the numbers that \<open>minShapeScale\<close> meets at mood 100.\<close>

lemma binade_numeral:
  "binade (numeral n) x =
     (if 2 \<le> x then binade (pred_numeral n) (x / 2) + 1
      else if x < 1 then binade (pred_numeral n) (x * 2) - 1 else 0)"
  by (simp add: numeral_eq_Suc)

lemma to_double_eval:
  assumes "x \<noteq> 0" and "binade 1100 \<bar>x\<bar> = b" and "x / 2 powi (b - 52) = m"
    and "round_half_even m = k"
  shows "to_double x = of_int k * 2 powi (b - 52)"
  using assms by (simp add: to_double_def)

lemma to_double_one: "to_double 1 = 1"
proof -
  have "to_double 1 = of_int 4503599627370496 * 2 powi (0 - 52)"
  proof (rule to_double_eval)
    show "binade 1100 \<bar>1\<bar> = 0" by (simp add: binade_numeral)
    show "(1 :: real) / 2 powi (0 - 52) = 4503599627370496" by (simp add: power_int_minus)
    show "round_half_even 4503599627370496 = 4503599627370496"
      by (simp add: round_half_even_def Let_def)
  qed simp
  then show ?thesis by (simp add: power_int_minus)
qed

lemma to_double_four_fifths: "to_double (4 / 5) = 3602879701896397 / 4503599627370496"
proof -
  have "to_double (4 / 5) = of_int 7205759403792794 * 2 powi (- 1 - 52)"
  proof (rule to_double_eval)
    show "binade 1100 \<bar>4 / 5\<bar> = - 1" by (simp add: binade_numeral)
    show "(4 / 5 :: real) / 2 powi (- 1 - 52) = 36028797018963968 / 5"
      by (simp add: power_int_minus)
    show "round_half_even (36028797018963968 / 5) = 7205759403792794"
      by (simp add: round_half_even_def Let_def)
  qed simp
  then show ?thesis by (simp add: power_int_minus)
qed

lemma to_double_two_fifths: "to_double (2 / 5) = 3602879701896397 / 9007199254740992"
proof -
  have "to_double (2 / 5) = of_int 7205759403792794 * 2 powi (- 2 - 52)"
  proof (rule to_double_eval)
    show "binade 1100 \<bar>2 / 5\<bar> = - 2" by (simp add: binade_numeral)
    show "(2 / 5 :: real) / 2 powi (- 2 - 52) = 36028797018963968 / 5"
      by (simp add: power_int_minus)
    show "round_half_even (36028797018963968 / 5) = 7205759403792794"
      by (simp add: round_half_even_def Let_def)
  qed simp
  then show ?thesis by (simp add: power_int_minus)
qed

lemma to_double_six_fifths: "to_double (6 / 5) = 5404319552844595 / 4503599627370496"
proof -
  have "to_double (6 / 5) = of_int 5404319552844595 * 2 powi (0 - 52)"
  proof (rule to_double_eval)
    show "binade 1100 \<bar>6 / 5\<bar> = 0" by (simp add: binade_numeral)
    show "(6 / 5 :: real) / 2 powi (0 - 52) = 27021597764222976 / 5"
      by (simp add: power_int_minus)
    show "round_half_even (27021597764222976 / 5) = 5404319552844595"
      by (simp add: round_half_even_def Let_def)
  qed simp
  then show ?thesis by (simp add: power_int_minus)
qed

text \<open>The double nearest to 0.4 is a double: rounding it again changes nothing.\<close>

lemma to_double_product:
  "to_double (3602879701896397 / 9007199254740992) = 3602879701896397 / 9007199254740992"
proof -
  have "to_double (3602879701896397 / 9007199254740992)
      = of_int 7205759403792794 * 2 powi (- 2 - 52)"
  proof (rule to_double_eval)
    show "binade 1100 \<bar>3602879701896397 / 9007199254740992\<bar> = - 2"
      by (simp add: binade_numeral)
    show "(3602879701896397 / 9007199254740992 :: real) / 2 powi (- 2 - 52) = 7205759403792794"
      by (simp add: power_int_minus)
    show "round_half_even 7205759403792794 = 7205759403792794"
      by (simp add: round_half_even_def Let_def)
  qed simp
  then show ?thesis by (simp add: power_int_minus)
qed

text \<open>
  The exact sum lies half way between two doubles; the tie goes to the even significand,
  which is the upper one.
\<close>

lemma to_double_sum:
  "to_double (3602879701896397 / 4503599627370496 + 3602879701896397 / 9007199254740992)
     = 5404319552844596 / 4503599627370496"
proof -
  have "to_double (3602879701896397 / 4503599627370496 + 3602879701896397 / 9007199254740992)
      = of_int 5404319552844596 * 2 powi (0 - 52)"
  proof (rule to_double_eval)
    show "binade 1100 \<bar>3602879701896397 / 4503599627370496
        + 3602879701896397 / 9007199254740992\<bar> = 0"
      by (simp add: binade_numeral)
    show "(3602879701896397 / 4503599627370496 + 3602879701896397 / 9007199254740992 :: real)
          / 2 powi (0 - 52) = 10808639105689191 / 2"
      by (simp add: power_int_minus)
    show "round_half_even (10808639105689191 / 2) = 5404319552844596"
      by (simp add: round_half_even_def Let_def)
  qed simp
  then show ?thesis by (simp add: power_int_minus)
qed

lemma minShapeScale_double_100:
  "minShapeScale (moodToSettings_double 100) = 5404319552844596 / 4503599627370496"
proof -
  have "minShapeScale (moodToSettings_double 100)
      = to_double (to_double (4 / 5) + to_double (to_double 1 * to_double (2 / 5)))"
    by (simp add: moodToSettings_double_def Let_def)
  also have "\<dots> = to_double (3602879701896397 / 4503599627370496
      + to_double (3602879701896397 / 9007199254740992))"
    by (simp only: to_double_one to_double_four_fifths to_double_two_fifths mult_1)
  also have "\<dots> = 5404319552844596 / 4503599627370496"
    by (simp only: to_double_product to_double_sum)
  finally show ?thesis .
qed

text \<open>
  Claim C4. The claim says that at mood 100 every field of \<open>moodToSettings\<close> lies in its
  documented range, which for \<open>minShapeScale\<close> is 0.8 to 1.2. At mood 100 the source
  computes \<open>0.8 + 1 * 0.4\<close> in doubles: the result is 5404319552844596 / 2^52, that is
  1.2000000000000002, the double just above the double nearest to 1.2, and it is above 1.2.
  So the settings of mood 100 are not in the documented range.
\<close>

theorem moodToSettings_double_exceeds_range:
  "minShapeScale (moodToSettings_double 100) = 5404319552844596 / 2 ^ 52 \<and>
   to_double 1.2 = 5404319552844595 / 2 ^ 52 \<and>
   1.2 < minShapeScale (moodToSettings_double 100) \<and>
   \<not> in_documented_range (moodToSettings_double 100)"
proof -
  have v: "minShapeScale (moodToSettings_double 100) = 5404319552844596 / 2 ^ 52"
    by (simp add: minShapeScale_double_100)
  have d: "to_double 1.2 = 5404319552844595 / 2 ^ 52"
    using to_double_six_fifths by simp
  have gt: "1.2 < minShapeScale (moodToSettings_double 100)"
    by (simp add: minShapeScale_double_100)
  then have "\<not> in_documented_range (moodToSettings_double 100)"
    by (simp add: in_documented_range_def)
  then show ?thesis using v d gt by blast
qed

subsection \<open>Micro-triangle culling\<close>

lemma mean_median_le_upper: "xs \<noteq> [] \<Longrightarrow> mean_median xs \<le> upper_median xs"
proof -
  assume ne: "xs \<noteq> []"
  have "sort xs ! (length xs div 2 - 1) \<le> sort xs ! (length xs div 2)"
    using ne by (intro sorted_nth_mono) simp_all
  then show ?thesis by (simp add: mean_median_def upper_median_def)
qed

lemma filterSmallTriangles_cut:
  assumes "tris \<noteq> []" and "t \<in> set (filterSmallTriangles tris)"
  shows "0.28 * upper_median (map area tris) \<le> area t"
proof -
  define m where "m = upper_median (map area tris)"
  have "(if m = 0 then 1 else m) * 0.28 \<le> area t"
    using assms
    by (simp add: filterSmallTriangles_def Let_def m_def upper_median_def cong: if_cong)
  moreover have "0.28 * m \<le> (if m = 0 then 1 else m) * 0.28" by simp
  ultimately show ?thesis unfolding m_def by linarith
qed

text \<open>
  Claim C5. For a non-empty triangle list, no triangle that survives \<open>filterSmallTriangles\<close>
  has an area strictly below 0.28 times the median of the areas before filtering. This holds
  for the median element that the source reads and for the textbook median alike.
\<close>

theorem filterSmallTriangles_no_micro:
  assumes "tris \<noteq> []" and "t \<in> set (filterSmallTriangles tris)"
  shows "\<not> area t < 0.28 * upper_median (map area tris) \<and>
         \<not> area t < 0.28 * mean_median (map area tris)"
proof -
  have "0.28 * mean_median (map area tris) \<le> 0.28 * upper_median (map area tris)"
    using mean_median_le_upper [of "map area tris"] assms(1) by simp
  with filterSmallTriangles_cut [OF assms] show ?thesis by linarith
qed

theorem filterSmallTriangles_no_micro_witness:
  "[tri_of_area 1, tri_of_area 10, tri_of_area 4] \<noteq> [] \<and>
   tri_of_area 10 \<in> set (filterSmallTriangles [tri_of_area 1, tri_of_area 10, tri_of_area 4]) \<and>
   \<not> area (tri_of_area 10)
       < 0.28 * upper_median (map area [tri_of_area 1, tri_of_area 10, tri_of_area 4]) \<and>
   \<not> area (tri_of_area 10)
       < 0.28 * mean_median (map area [tri_of_area 1, tri_of_area 10, tri_of_area 4])"
proof -
  have h1: "[tri_of_area 1, tri_of_area 10, tri_of_area 4] \<noteq> []" by simp
  have h2: "tri_of_area 10
              \<in> set (filterSmallTriangles [tri_of_area 1, tri_of_area 10, tri_of_area 4])"
    by (simp add: filterSmallTriangles_def tri_of_area_def)
  from filterSmallTriangles_no_micro [OF h1 h2] h1 h2 show ?thesis by blast
qed

subsection \<open>Chaikin smoothing\<close>

lemma chaikin_round_corner_cut: "chaikin_round r = corner_cut r"
proof -
  have "map (\<lambda>i. let a = r ! i; b = r ! ((i + 1) mod length r) in edge_cut a b) [0..<length r]
        = map (\<lambda>(a, b). edge_cut a b) (zip r (rotate1 r))"
    by (rule nth_equalityI) (simp_all add: nth_rotate1 Let_def)
  then show ?thesis
    by (simp add: chaikin_round_def corner_cut_def cyclic_edges_def edge_cut_def)
qed

lemma length_concat_const:
  "(\<And>x. x \<in> set xs \<Longrightarrow> length (f x) = c) \<Longrightarrow> length (concat (map f xs)) = c * length xs"
  by (induction xs) simp_all

lemma length_edge_cut: "length (edge_cut a b) = 2"
  by (simp add: edge_cut_def)

lemma length_corner_cut: "length (corner_cut r) = 2 * length r"
proof -
  have "length (concat (map (\<lambda>(a, b). edge_cut a b) (cyclic_edges r)))
          = 2 * length (cyclic_edges r)"
    by (rule length_concat_const) (simp add: length_edge_cut split: prod.split)
  then show ?thesis by (simp add: corner_cut_def cyclic_edges_def)
qed

lemma length_corner_cut_pow: "length ((corner_cut ^^ k) r) = length r * 2 ^ k"
  by (induction k) (simp_all add: length_corner_cut)

lemma chaikin_loop_funpow:
  "it \<le> k \<Longrightarrow> chaikin_loop it (real k) r = (corner_cut ^^ (k - it)) r"
proof (induction "k - it" arbitrary: it r)
  case 0
  then show ?case by (subst chaikin_loop.simps) simp
next
  case (Suc d)
  then have lt: "it < k" and d: "d = k - Suc it" by linarith+
  have "chaikin_loop it (real k) r = chaikin_loop (Suc it) (real k) (corner_cut r)"
    using lt by (subst chaikin_loop.simps) (simp add: chaikin_round_corner_cut)
  also have "\<dots> = (corner_cut ^^ (k - Suc it)) (corner_cut r)"
    using Suc.hyps(1) [OF d] lt by simp
  also have "\<dots> = (corner_cut ^^ Suc (k - Suc it)) r"
    by (simp add: funpow_swap1)
  also have "Suc (k - Suc it) = k - it"
    using lt by linarith
  finally show ?case .
qed

text \<open>
  Claim C6. \<open>chaikinSmooth\<close> with 0 iterations returns its input, and with \<open>k > 0\<close>
  iterations it returns \<open>k\<close> rounds of corner cutting, where a round replaces each cyclic
  edge \<open>(a, b)\<close> by \<open>0.75a + 0.25b\<close> and \<open>0.25a + 0.75b\<close>; the result has
  \<open>inputCount * 2^k\<close> points.
\<close>

theorem chaikinSmooth_closure:
  "chaikinSmooth pts 0 = pts \<and>
   (0 < k \<longrightarrow> chaikinSmooth pts (real k) = (corner_cut ^^ k) pts \<and>
                length (chaikinSmooth pts (real k)) = length pts * 2 ^ k)"
  by (simp add: chaikinSmooth_def chaikin_loop_funpow length_corner_cut_pow)

theorem chaikinSmooth_closure_witness:
  "(0::nat) < 2 \<and> chaikinSmooth corner3 (real 2) = (corner_cut ^^ 2) corner3 \<and>
   length (chaikinSmooth corner3 (real 2)) = 12"
proof -
  have len: "length corner3 = 3" by (simp add: corner3_def)
  have pos: "(0::nat) < 2" by simp
  from chaikinSmooth_closure [of corner3 2] pos
  have run: "chaikinSmooth corner3 (real 2) = (corner_cut ^^ 2) corner3"
    and "length (chaikinSmooth corner3 (real 2)) = length corner3 * 2 ^ 2"
    by blast+
  then have "length (chaikinSmooth corner3 (real 2)) = 12"
    by (simp only: len) simp
  with pos run show ?thesis by blast
qed

subsection \<open>Triangulation: indices and small inputs\<close>

lemma delaunay_tris_bounds:
  "t \<in> set (delaunay_tris pts) \<Longrightarrow>
   fst t < length pts \<and> fst (snd t) < length pts \<and> snd (snd t) < length pts"
  by (auto simp: delaunay_tris_def Let_def split: if_splits)

lemma triples_flat:
  "triples (concat (map (\<lambda>t. case t of (t0, t1, t2) \<Rightarrow> [t0, t1, t2]) ts)) = ts"
  by (induction ts) auto

lemma corner3_run: "triangleIndices corner3 = [1, 0, 2]"
  by code_simp

text \<open>
  Claim C7. Every index that the triangulation emits is below the number of input points:
  no emitted triangle refers to a vertex of the super-triangle, and \<open>triangulate\<close>, which
  reads the indices three at a time, reads the point array inside its bounds.
\<close>

theorem triangleIndices_in_bounds:
  "(\<forall>k \<in> set (triangleIndices pts). k < length pts) \<and>
   (\<forall>t \<in> set (triples (triangleIndices pts)).
      case t of (i0, i1, i2) \<Rightarrow> i0 < length pts \<and> i1 < length pts \<and> i2 < length pts)"
proof -
  have "triples (triangleIndices pts) = delaunay_tris pts"
    by (simp add: triangleIndices_def triples_flat)
  moreover have "\<forall>t \<in> set (delaunay_tris pts).
      case t of (i0, i1, i2) \<Rightarrow> i0 < length pts \<and> i1 < length pts \<and> i2 < length pts"
    using delaunay_tris_bounds by fastforce
  moreover have "\<forall>k \<in> set (triangleIndices pts). k < length pts"
    using delaunay_tris_bounds unfolding triangleIndices_def by fastforce
  ultimately show ?thesis by simp
qed

theorem triangleIndices_in_bounds_witness:
  "triangleIndices corner3 = [1, 0, 2] \<and> 2 \<in> set (triangleIndices corner3) \<and>
   2 < length corner3"
proof -
  have m: "2 \<in> set (triangleIndices corner3)" by (simp add: corner3_run)
  from triangleIndices_in_bounds [of corner3] m have "2 < length corner3" by blast
  with m corner3_run show ?thesis by blast
qed

text \<open>
  Claim C8. A point set with fewer than 3 points gives an empty index list and an empty
  triangle list: \<open>run\<close> returns at once and the loop of \<open>triangulate\<close> has nothing to read,
  so no array is indexed and nothing can fail.
\<close>

theorem small_input_empty:
  "length pts < 3 \<Longrightarrow> triangleIndices pts = [] \<and> triangulate ctx pts w h = []"
  by (simp add: triangleIndices_def delaunay_tris_def triangulate_def filterSmallTriangles_def)

theorem small_input_empty_witness:
  "length (butlast corner3) < 3 \<and> triangleIndices (butlast corner3) = [] \<and>
   triangulate black_canvas (butlast corner3) 10 10 = []"
proof -
  have len: "length (butlast corner3) < 3" by (simp add: corner3_def)
  from small_input_empty [OF len, of black_canvas 10 10] len show ?thesis by blast
qed

subsection \<open>Base gradient\<close>

lemma colorDistance_sym: "colorDistance a b = colorDistance b a"
  by (simp add: colorDistance_def Let_def power2_commute algebra_simps)

lemma colorDistance_self: "colorDistance a a = 0"
  by (simp add: colorDistance_def)

lemma colorDistance_nonneg: "0 \<le> colorDistance a b"
  by (simp add: colorDistance_def Let_def)

lemma foldl_invariant:
  assumes "P [] a"
    and "\<And>xs x s. P xs s \<Longrightarrow> x \<in> set ys \<Longrightarrow> P (xs @ [x]) (f s x)"
  shows "P ys (foldl f a ys)"
proof -
  have "set zs \<subseteq> set ys \<Longrightarrow> P zs (foldl f a zs)" for zs
  proof (induction zs rule: rev_induct)
    case Nil
    then show ?case using assms(1) by simp
  next
    case (snoc x xs)
    then show ?case using assms(2) by simp
  qed
  then show ?thesis by simp
qed

lemma index_pairs_iff: "(i, j) \<in> set (index_pairs n) \<longleftrightarrow> i < j \<and> j < n"
proof
  assume "(i, j) \<in> set (index_pairs n)"
  then show "i < j \<and> j < n" by (auto simp: index_pairs_def)
next
  assume a: "i < j \<and> j < n"
  then have "i \<in> set [0..<n]" and "(i, j) \<in> set (map (\<lambda>j. (i, j)) [i + 1..<n])" by auto
  then show "(i, j) \<in> set (index_pairs n)" unfolding index_pairs_def set_concat by fastforce
qed

lemma pair_step_inv:
  assumes "pair_inv samples ps st" and "i < length samples" and "j < length samples"
  shows "pair_inv samples (ps @ [(i, j)]) (pair_step samples st (i, j))"
proof -
  obtain m f t where st: "st = (m, f, t)" by (cases st) auto
  show ?thesis
    using assms unfolding st pair_inv_def pair_step_def Let_def
    by (auto simp: colorDistance_sym [of "dcolor (samples ! j)" "dcolor (samples ! i)"])
qed

lemma farthest_pair_inv:
  assumes "samples \<noteq> []"
  shows "pair_inv samples (index_pairs (length samples)) (farthest_pair samples)"
  unfolding farthest_pair_def
proof (rule foldl_invariant)
  show "pair_inv samples [] (0, samples ! 0, samples ! 0)"
    using assms by (simp add: pair_inv_def colorDistance_self)
next
  fix xs x s
  assume inv: "pair_inv samples xs s" and x: "x \<in> set (index_pairs (length samples))"
  obtain i j where ij: "x = (i, j)" by (cases x)
  with x have "i < length samples" "j < length samples" by (auto simp: index_pairs_iff)
  with inv show "pair_inv samples (xs @ [x]) (pair_step samples s x)"
    unfolding ij by (rule pair_step_inv)
qed

lemma farthest_pair_max:
  assumes "samples \<noteq> []" and "farthest_pair samples = (m, f, t)"
    and "c \<in> set samples" and "d \<in> set samples"
  shows "colorDistance (dcolor c) (dcolor d) \<le> colorDistance (dcolor f) (dcolor t)"
proof -
  from farthest_pair_inv [OF assms(1)] assms(2)
  have m: "m = colorDistance (dcolor f) (dcolor t)"
    and all: "\<And>i j. i < j \<Longrightarrow> j < length samples \<Longrightarrow>
                colorDistance (dcolor (samples ! i)) (dcolor (samples ! j)) \<le> m"
    by (auto simp: pair_inv_def index_pairs_iff)
  obtain i j where i: "i < length samples" "c = samples ! i"
    and j: "j < length samples" "d = samples ! j"
    using assms(3,4) by (auto simp: in_set_conv_nth)
  consider "i < j" | "j < i" | "i = j" by linarith
  then show ?thesis
  proof cases
    case 1
    then show ?thesis using all [of i j] i j m by simp
  next
    case 2
    then show ?thesis using all [of j i] i j m colorDistance_sym [of "dcolor c" "dcolor d"] by simp
  next
    case 3
    then show ?thesis using i j colorDistance_self colorDistance_nonneg by simp
  qed
qed


lemma grid_samples_alt:
  "grid_samples ctx w h
     = concat (map (\<lambda>gy. map (\<lambda>gx. cell_sample ctx w h gx gy) [0..<6]) [0..<6])"
  by (simp add: grid_samples_def cell_sample_def Let_def)

lemma grid_samples_set:
  "set (grid_samples ctx w h) = (\<lambda>(gx, gy). cell_sample ctx w h gx gy) ` ({..<6} \<times> {..<6})"
  unfolding grid_samples_alt by auto

lemma grid_samples_length: "length (grid_samples ctx w h) = 36"
  unfolding grid_samples_alt by (simp add: length_concat comp_def sum_list_triv)

lemma grid_sample_position:
  assumes "s \<in> set (grid_samples ctx w h)" and "0 < w" and "0 < h"
  shows "0 \<le> vx (position s) / w \<and> vx (position s) / w \<le> 1 \<and>
         0 \<le> vy (position s) / h \<and> vy (position s) / h \<le> 1"
proof -
  from assms(1) obtain gx gy where g: "gx < 6" "gy < 6" and s: "s = cell_sample ctx w h gx gy"
    by (auto simp: grid_samples_set)
  have x: "vx (position s) / w = (real gx + 0.5) / 6" and y: "vy (position s) / h = (real gy + 0.5) / 6"
    using assms(2,3) by (simp_all add: s cell_sample_def)
  from g have "real gx < 6" "real gy < 6" by simp_all
  then show ?thesis unfolding x y by simp
qed

text \<open>
  Claim C9. For an image of positive width and height, \<open>analyzeBaseGradient\<close> emits the
  36 region-averaged samples of its 6x6 grid, and its direction runs between two of them,
  \<open>a\<close> and \<open>b\<close>, whose colour distance is the largest of all pairs of samples, from the one
  of lower luminance \<open>(x1, y1)\<close> to the one of higher luminance \<open>(x2, y2)\<close>; the four
  coordinates are fractions of the image size and lie between 0 and 1.
\<close>

theorem analyzeBaseGradient_direction:
  assumes "0 < w" and "0 < h"
  shows "colors (analyzeBaseGradient ctx w h) = grid_samples ctx w h \<and>
         length (grid_samples ctx w h) = 36 \<and>
         set (grid_samples ctx w h) = (\<lambda>(gx, gy). cell_sample ctx w h gx gy) ` ({..<6} \<times> {..<6}) \<and>
         (\<exists>a b. a \<in> set (grid_samples ctx w h) \<and> b \<in> set (grid_samples ctx w h) \<and>
            direction (analyzeBaseGradient ctx w h)
              = \<lparr> x1 = vx (position a) / w, y1 = vy (position a) / h,
                  x2 = vx (position b) / w, y2 = vy (position b) / h \<rparr> \<and>
            (\<forall>c \<in> set (grid_samples ctx w h). \<forall>d \<in> set (grid_samples ctx w h).
               colorDistance (dcolor c) (dcolor d) \<le> colorDistance (dcolor a) (dcolor b)) \<and>
            getLuminance (dcolor a) \<le> getLuminance (dcolor b)) \<and>
         0 \<le> x1 (direction (analyzeBaseGradient ctx w h)) \<and>
         x1 (direction (analyzeBaseGradient ctx w h)) \<le> 1 \<and>
         0 \<le> y1 (direction (analyzeBaseGradient ctx w h)) \<and>
         y1 (direction (analyzeBaseGradient ctx w h)) \<le> 1 \<and>
         0 \<le> x2 (direction (analyzeBaseGradient ctx w h)) \<and>
         x2 (direction (analyzeBaseGradient ctx w h)) \<le> 1 \<and>
         0 \<le> y2 (direction (analyzeBaseGradient ctx w h)) \<and>
         y2 (direction (analyzeBaseGradient ctx w h)) \<le> 1"
proof -
  let ?S = "grid_samples ctx w h"
  obtain m f t where fp: "farthest_pair ?S = (m, f, t)" by (cases "farthest_pair ?S") auto
  have ne: "?S \<noteq> []" using grid_samples_length [of ctx w h] by auto
  from farthest_pair_inv [OF ne] fp
  have f: "f \<in> set ?S" and t: "t \<in> set ?S"
    and lum: "getLuminance (dcolor f) \<le> getLuminance (dcolor t)"
    by (auto simp: pair_inv_def)
  have dir: "direction (analyzeBaseGradient ctx w h)
              = \<lparr> x1 = vx (position f) / w, y1 = vy (position f) / h,
                  x2 = vx (position t) / w, y2 = vy (position t) / h \<rparr>"
    and col: "colors (analyzeBaseGradient ctx w h) = ?S"
    by (simp_all add: analyzeBaseGradient_def Let_def fp)
  have mx: "\<forall>c \<in> set ?S. \<forall>d \<in> set ?S.
              colorDistance (dcolor c) (dcolor d) \<le> colorDistance (dcolor f) (dcolor t)"
    using farthest_pair_max [OF ne fp] by blast
  have ex: "\<exists>a b. a \<in> set ?S \<and> b \<in> set ?S \<and>
            direction (analyzeBaseGradient ctx w h)
              = \<lparr> x1 = vx (position a) / w, y1 = vy (position a) / h,
                  x2 = vx (position b) / w, y2 = vy (position b) / h \<rparr> \<and>
            (\<forall>c \<in> set ?S. \<forall>d \<in> set ?S.
               colorDistance (dcolor c) (dcolor d) \<le> colorDistance (dcolor a) (dcolor b)) \<and>
            getLuminance (dcolor a) \<le> getLuminance (dcolor b)"
    using f t dir mx lum by blast
  have bf: "0 \<le> vx (position f) / w \<and> vx (position f) / w \<le> 1 \<and>
            0 \<le> vy (position f) / h \<and> vy (position f) / h \<le> 1"
    by (rule grid_sample_position [OF f assms])
  have bt: "0 \<le> vx (position t) / w \<and> vx (position t) / w \<le> 1 \<and>
            0 \<le> vy (position t) / h \<and> vy (position t) / h \<le> 1"
    by (rule grid_sample_position [OF t assms])
  have bounds: "0 \<le> x1 (direction (analyzeBaseGradient ctx w h)) \<and>
         x1 (direction (analyzeBaseGradient ctx w h)) \<le> 1 \<and>
         0 \<le> y1 (direction (analyzeBaseGradient ctx w h)) \<and>
         y1 (direction (analyzeBaseGradient ctx w h)) \<le> 1 \<and>
         0 \<le> x2 (direction (analyzeBaseGradient ctx w h)) \<and>
         x2 (direction (analyzeBaseGradient ctx w h)) \<le> 1 \<and>
         0 \<le> y2 (direction (analyzeBaseGradient ctx w h)) \<and>
         y2 (direction (analyzeBaseGradient ctx w h)) \<le> 1"
    using bf bt by (simp add: dir)
  from col grid_samples_length [of ctx w h] grid_samples_set [of ctx w h] ex bounds
  show ?thesis by blast
qed

theorem analyzeBaseGradient_direction_witness:
  "(0::real) < 6 \<and> length (colors (analyzeBaseGradient black_canvas 6 6)) = 36 \<and>
   0 \<le> x1 (direction (analyzeBaseGradient black_canvas 6 6)) \<and>
   x2 (direction (analyzeBaseGradient black_canvas 6 6)) \<le> 1"
proof -
  have pos: "(0::real) < 6" by simp
  from analyzeBaseGradient_direction [OF pos pos, of black_canvas] pos show ?thesis by simp
qed

subsection \<open>Poisson spacing\<close>

lemma foldl_add_zero: "foldl (\<lambda>total i. total) (0::real) xs = 0"
  by (induction xs) simp_all

lemma regionVariance_black: "regionVariance black_canvas x y r w h = 0"
  by (simp add: regionVariance_def sampleRGB_def black_canvas_def colorDistance_def Let_def
                foldl_add_zero)

lemma spacing_env_simps:
  "env_ctx spacing_env = black_canvas" "env_w spacing_env = 67" "env_h spacing_env = 67"
  "env_base spacing_env = 24" "env_maxAttempts spacing_env = 30"
  "env_draws spacing_env = spacing_draws"
  "adaptiveSensitivity (env_settings spacing_env) = 1 / 4"
  "minShapeScale (env_settings spacing_env) = 4 / 5"
  by (simp_all add: spacing_env_def moodToMinDistance_def moodToSettings_def)

lemma localDist_spacing: "localDist spacing_env x y = 96 / 5"
  by (simp add: localDist_def spacing_env_simps regionVariance_black)

lemma localSpacing_spacing: "localSpacing spacing_env p = 96 / 5"
  by (simp add: localSpacing_def spacing_env_simps regionVariance_black)

lemma cell_size_spacing: "cell_size spacing_env = 24 / sqrt 2"
  by (simp add: cell_size_def spacing_env_simps)

lemma sqrt2_bounds: "1.41 < sqrt 2" "sqrt 2 < 1.42"
proof -
  show "1.41 < sqrt 2" by (rule real_less_rsqrt) (simp add: power2_eq_square)
  show "sqrt 2 < 1.42" by (rule real_less_lsqrt) (simp_all add: power2_eq_square)
qed

lemma cell_index:
  assumes "real_of_int k * 24 \<le> x * 1.41" and "x * 1.42 < (real_of_int k + 1) * 24" and "0 \<le> x"
  shows "\<lfloor>x / cell_size spacing_env\<rfloor> = k"
proof -
  have eq: "x / cell_size spacing_env = x * sqrt 2 / 24"
    by (simp add: cell_size_spacing)
  have "x * 1.41 \<le> x * sqrt 2" using assms(3) sqrt2_bounds(1) by (intro mult_left_mono) simp_all
  then have lo: "real_of_int k \<le> x * sqrt 2 / 24" using assms(1) by simp
  have "x * sqrt 2 \<le> x * 1.42" using assms(3) sqrt2_bounds(2) by (intro mult_left_mono) simp_all
  then have "x * sqrt 2 / 24 < real_of_int k + 1" using assms(2) by simp
  with lo show ?thesis unfolding eq by (simp add: floor_unique)
qed

lemma cell_indices:
  "\<lfloor>(67 / 2) / cell_size spacing_env\<rfloor> = 1"
  "\<lfloor>(1 / 5) / cell_size spacing_env\<rfloor> = 0"
  "\<lfloor>(39 / 2) / cell_size spacing_env\<rfloor> = 1"
  "\<lfloor>(79 / 2) / cell_size spacing_env\<rfloor> = 2"
  by (rule cell_index; simp)+

lemma ceil_cell:
  assumes "real_of_int k * 24 < x * 1.41" and "x * 1.42 \<le> (real_of_int k + 1) * 24" and "0 < x"
  shows "\<lceil>x / cell_size spacing_env\<rceil> = k + 1"
proof -
  have eq: "x / cell_size spacing_env = x * sqrt 2 / 24"
    by (simp add: cell_size_spacing)
  have "x * 1.41 < x * sqrt 2" using assms(3) sqrt2_bounds(1) by simp
  then have lo: "real_of_int k < x * sqrt 2 / 24" using assms(1) by simp
  have "x * sqrt 2 < x * 1.42" using assms(3) sqrt2_bounds(2) by simp
  then have hi: "x * sqrt 2 / 24 \<le> real_of_int k + 1" using assms(2) by simp
  from lo hi show ?thesis unfolding eq by (simp add: ceiling_unique)
qed

lemma grid_dims: "grid_w spacing_env = 4" "grid_h spacing_env = 4"
  and ceil_ld: "\<lceil>(96 / 5) / cell_size spacing_env\<rceil> = 2"
  unfolding grid_w_def grid_h_def spacing_env_simps
  using ceil_cell [of 3 67] ceil_cell [of 1 "96 / 5"] by simp_all

lemma addPoint_eval:
  assumes "\<lfloor>x / cell_size env\<rfloor> = gx" and "\<lfloor>y / cell_size env\<rfloor> = gy"
    and "0 \<le> gx" and "gx < grid_w env" and "0 \<le> gy" and "gy < grid_h env"
  shows "addPoint env st x y =
           st \<lparr> ps_pts := ps_pts st @ [\<lparr> vx = x, vy = y \<rparr>],
                ps_active := ps_active st @ [length (ps_pts st)],
                ps_grid := (ps_grid st)((gx, gy) \<mapsto> length (ps_pts st)) \<rparr>"
  unfolding addPoint_def Let_def assms(1,2) using assms(3-6) by simp

lemma tooClose_eval:
  assumes "\<lfloor>x / cell_size env\<rfloor> = gx" and "\<lfloor>y / cell_size env\<rfloor> = gy"
    and "\<lceil>md / cell_size env\<rceil> + 1 = r"
  shows "tooClose env st x y md =
           list_ex (\<lambda>i. list_ex (\<lambda>j.
             case ps_grid st (i, j) of
               None \<Rightarrow> False
             | Some idx \<Rightarrow>
                 (vx (ps_pts st ! idx) - x) * (vx (ps_pts st ! idx) - x)
                 + (vy (ps_pts st ! idx) - y) * (vy (ps_pts st ! idx) - y) < md * md)
             [max 0 (gy - r) .. min (grid_h env - 1) (gy + r)])
           [max 0 (gx - r) .. min (grid_w env - 1) (gx + r)]"
  unfolding tooClose_def Let_def assms ..

lemma try_attempts_accept:
  assumes "env_draws env (ps_drawn st) = ua" and "env_draws env (ps_drawn st + 1) = ud"
    and "cos (ua * pi * 2) = c" and "sin (ua * pi * 2) = s"
    and "nx = vx p + c * (ld + ud * ld)" and "ny = vy p + s * (ld + ud * ld)"
    and "0 \<le> nx" and "nx < env_w env" and "0 \<le> ny" and "ny < env_h env"
    and "\<not> tooClose env (st \<lparr> ps_drawn := ps_drawn st + 2 \<rparr>) nx ny (localDist env nx ny)"
  shows "try_attempts env (Suc k) p ld st
           = (True, addPoint env (st \<lparr> ps_drawn := ps_drawn st + 2 \<rparr>) nx ny)"
  unfolding try_attempts.simps Let_def assms(1-4) assms(5,6) [symmetric]
  using assms(7-11) by simp

lemma try_attempts_outside:
  assumes "\<And>n. ps_drawn st \<le> n \<Longrightarrow> env_draws env n = u"
    and "\<not> (0 \<le> vx p + cos (u * pi * 2) * (ld + u * ld) \<and>
             vx p + cos (u * pi * 2) * (ld + u * ld) < env_w env \<and>
             0 \<le> vy p + sin (u * pi * 2) * (ld + u * ld) \<and>
             vy p + sin (u * pi * 2) * (ld + u * ld) < env_h env)"
  shows "try_attempts env k p ld st = (False, st \<lparr> ps_drawn := ps_drawn st + 2 * k \<rparr>)"
  using assms(1)
proof (induction k arbitrary: st)
  case 0
  then show ?case by simp
next
  case (Suc k)
  have d0: "env_draws env (ps_drawn st) = u" and d1: "env_draws env (ps_drawn st + 1) = u"
    using Suc.prems by simp_all
  have "try_attempts env (Suc k) p ld st
          = try_attempts env k p ld (st \<lparr> ps_drawn := ps_drawn st + 2 \<rparr>)"
    unfolding try_attempts.simps Let_def d0 d1 using assms(2) by auto
  also have "\<dots> = (False, st \<lparr> ps_drawn := ps_drawn st + 2 \<rparr>
                              \<lparr> ps_drawn := ps_drawn (st \<lparr> ps_drawn := ps_drawn st + 2 \<rparr>) + 2 * k \<rparr>)"
    by (rule Suc.IH) (simp add: Suc.prems)
  finally show ?case by simp
qed

lemma poisson_loop_accept:
  assumes "ps_active st \<noteq> []"
    and "nat \<lfloor>env_draws env (ps_drawn st) * real (length (ps_active st))\<rfloor> = ri"
    and "ps_pts st ! (ps_active st ! ri) = p"
    and "try_attempts env (env_maxAttempts env) p (localDist env (vx p) (vy p))
           (st \<lparr> ps_drawn := ps_drawn st + 1 \<rparr>) = (True, st1)"
  shows "poisson_loop env (Suc fuel) st = poisson_loop env fuel st1"
  using assms by (subst poisson_loop.simps) (simp add: Let_def)

lemma poisson_loop_reject:
  assumes "ps_active st \<noteq> []"
    and "nat \<lfloor>env_draws env (ps_drawn st) * real (length (ps_active st))\<rfloor> = ri"
    and "ps_pts st ! (ps_active st ! ri) = p"
    and "try_attempts env (env_maxAttempts env) p (localDist env (vx p) (vy p))
           (st \<lparr> ps_drawn := ps_drawn st + 1 \<rparr>) = (False, st1)"
  shows "poisson_loop env (Suc fuel) st
           = poisson_loop env fuel
               (st1 \<lparr> ps_active := take ri (ps_active st1) @ drop (Suc ri) (ps_active st1) \<rparr>)"
  using assms by (subst poisson_loop.simps) (simp add: Let_def)

lemma trig_draws:
  "cos (0 * pi * 2) = 1" "sin (0 * pi * 2) = 0"
  "cos (1 / 4 * pi * 2) = 0" "sin (1 / 4 * pi * 2) = 1"
  "cos (1 / 2 * pi * 2) = - 1" "sin (1 / 2 * pi * 2) = 0"
  "cos (3 / 4 * pi * 2) = 0" "sin (3 / 4 * pi * 2) = - 1"
proof -
  have a: "3 / 4 * pi * 2 = 3 / 2 * pi" and b: "1 / 4 * pi * 2 = pi / 2" by simp_all
  show "cos (3 / 4 * pi * 2) = 0" "sin (3 / 4 * pi * 2) = - 1"
    unfolding a by (rule cos_3over2_pi, rule sin_3over2_pi)
  show "cos (1 / 4 * pi * 2) = 0" "sin (1 / 4 * pi * 2) = 1"
    unfolding b by simp_all
qed simp_all

lemma spacing_init:
  "addPoint spacing_env \<lparr> ps_pts = [], ps_active = [], ps_grid = (\<lambda>_. None), ps_drawn = 0 \<rparr>
     (env_w spacing_env / 2) (env_h spacing_env / 2) = spacing_state 0 (spacing_grid 0)"
proof -
  have c: "\<lfloor>env_w spacing_env / 2 / cell_size spacing_env\<rfloor> = 1"
      "\<lfloor>env_h spacing_env / 2 / cell_size spacing_env\<rfloor> = 1"
    unfolding spacing_env_simps by (rule cell_index; simp)+
  show ?thesis
    by (subst addPoint_eval [OF c])
       (simp_all add: grid_dims spacing_state_def spacing_grid_def spacing_pts_def spacing_env_simps)
qed

lemma tooClose_drawn [simp]:
  "tooClose env (st \<lparr> ps_drawn := d \<rparr>) x y md = tooClose env st x y md"
  by (simp add: tooClose_def Let_def cong: option.case_cong)

lemma poisson_round_accept:
  assumes act: "ps_active st \<noteq> []"
    and ri: "nat \<lfloor>env_draws env (ps_drawn st) * real (length (ps_active st))\<rfloor> = ri"
    and p: "ps_pts st ! (ps_active st ! ri) = p"
    and m: "env_maxAttempts env = Suc m"
    and ld: "localDist env (vx p) (vy p) = ld"
    and ua: "env_draws env (ps_drawn st + 1) = ua" and ud: "env_draws env (ps_drawn st + 2) = ud"
    and c: "cos (ua * pi * 2) = c" and s: "sin (ua * pi * 2) = s"
    and nx: "nx = vx p + c * (ld + ud * ld)" and ny: "ny = vy p + s * (ld + ud * ld)"
    and inside: "0 \<le> nx" "nx < env_w env" "0 \<le> ny" "ny < env_h env"
    and cell: "\<lfloor>nx / cell_size env\<rfloor> = gx" "\<lfloor>ny / cell_size env\<rfloor> = gy"
    and incell: "0 \<le> gx" "gx < grid_w env" "0 \<le> gy" "gy < grid_h env"
    and far: "\<not> tooClose env st nx ny (localDist env nx ny)"
  shows "poisson_loop env (Suc fuel) st
           = poisson_loop env fuel
               \<lparr> ps_pts = ps_pts st @ [\<lparr> vx = nx, vy = ny \<rparr>],
                 ps_active = ps_active st @ [length (ps_pts st)],
                 ps_grid = (ps_grid st)((gx, gy) \<mapsto> length (ps_pts st)),
                 ps_drawn = ps_drawn st + 3 \<rparr>"
proof (rule poisson_loop_accept [OF act ri p])
  let ?st1 = "st \<lparr> ps_drawn := ps_drawn st + 1 \<rparr>"
  let ?st2 = "?st1 \<lparr> ps_drawn := ps_drawn ?st1 + 2 \<rparr>"
  have st2: "?st2 = st \<lparr> ps_drawn := ps_drawn st + 3 \<rparr>" by simp
  have a1: "env_draws env (ps_drawn ?st1) = ua" using ua by simp
  have a2: "env_draws env (ps_drawn ?st1 + 1) = ud" using ud by simp
  have far': "\<not> tooClose env ?st2 nx ny (localDist env nx ny)" using far by simp
  have "try_attempts env (Suc m) p ld ?st1 = (True, addPoint env ?st2 nx ny)"
    by (rule try_attempts_accept [OF a1 a2 c s nx ny inside far'])
  also have "addPoint env ?st2 nx ny
               = \<lparr> ps_pts = ps_pts st @ [\<lparr> vx = nx, vy = ny \<rparr>],
                   ps_active = ps_active st @ [length (ps_pts st)],
                   ps_grid = (ps_grid st)((gx, gy) \<mapsto> length (ps_pts st)),
                   ps_drawn = ps_drawn st + 3 \<rparr>"
    by (subst addPoint_eval [OF cell incell]) simp
  finally show "try_attempts env (env_maxAttempts env) p (localDist env (vx p) (vy p)) ?st1
                  = (True, \<lparr> ps_pts = ps_pts st @ [\<lparr> vx = nx, vy = ny \<rparr>],
                             ps_active = ps_active st @ [length (ps_pts st)],
                             ps_grid = (ps_grid st)((gx, gy) \<mapsto> length (ps_pts st)),
                             ps_drawn = ps_drawn st + 3 \<rparr>)"
    by (simp only: m ld)
qed

lemma poisson_loop_drain:
  assumes draws: "\<And>n. ps_drawn st \<le> n \<Longrightarrow> env_draws env n = u"
    and u: "0 \<le> u" "u < 1"
    and out: "\<And>i. i \<in> set (ps_active st) \<Longrightarrow>
               \<not> (0 \<le> vx (ps_pts st ! i) + cos (u * pi * 2)
                          * (localDist env (vx (ps_pts st ! i)) (vy (ps_pts st ! i))
                             + u * localDist env (vx (ps_pts st ! i)) (vy (ps_pts st ! i))) \<and>
                  vx (ps_pts st ! i) + cos (u * pi * 2)
                          * (localDist env (vx (ps_pts st ! i)) (vy (ps_pts st ! i))
                             + u * localDist env (vx (ps_pts st ! i)) (vy (ps_pts st ! i))) < env_w env \<and>
                  0 \<le> vy (ps_pts st ! i) + sin (u * pi * 2)
                          * (localDist env (vx (ps_pts st ! i)) (vy (ps_pts st ! i))
                             + u * localDist env (vx (ps_pts st ! i)) (vy (ps_pts st ! i))) \<and>
                  vy (ps_pts st ! i) + sin (u * pi * 2)
                          * (localDist env (vx (ps_pts st ! i)) (vy (ps_pts st ! i))
                             + u * localDist env (vx (ps_pts st ! i)) (vy (ps_pts st ! i))) < env_h env)"
    and fuel: "length (ps_active st) \<le> fuel"
  shows "poisson_loop env fuel st = Some (ps_pts st)"
  using assms
proof (induction "length (ps_active st)" arbitrary: st fuel)
  case 0
  then show ?case by (subst poisson_loop.simps) simp
next
  case (Suc len)
  from Suc.hyps(2) have act: "ps_active st \<noteq> []" by auto
  from Suc.hyps(2) Suc.prems(5) obtain f where f: "fuel = Suc f" by (cases fuel) auto
  define ri where "ri = nat \<lfloor>env_draws env (ps_drawn st) * real (length (ps_active st))\<rfloor>"
  define p where "p = ps_pts st ! (ps_active st ! ri)"
  have d: "env_draws env (ps_drawn st) = u" using Suc.prems(1) by simp
  have "u * real (length (ps_active st)) < real (length (ps_active st))"
    using Suc.prems(3) act by simp
  then have "\<lfloor>u * real (length (ps_active st))\<rfloor> < int (length (ps_active st))"
    by (simp add: floor_less_iff)
  moreover have "0 \<le> \<lfloor>u * real (length (ps_active st))\<rfloor>"
    using Suc.prems(2) by simp
  ultimately have ri_lt: "ri < length (ps_active st)"
    unfolding ri_def d by (simp add: nat_less_iff)
  then have mem: "ps_active st ! ri \<in> set (ps_active st)" by simp
  let ?st1 = "st \<lparr> ps_drawn := ps_drawn st + 1 \<rparr>"
  let ?k = "env_maxAttempts env"
  have ta: "try_attempts env ?k p (localDist env (vx p) (vy p)) ?st1
              = (False, ?st1 \<lparr> ps_drawn := ps_drawn ?st1 + 2 * ?k \<rparr>)"
  proof (rule try_attempts_outside [where u = u])
    fix n assume "ps_drawn ?st1 \<le> n"
    then show "env_draws env n = u" using Suc.prems(1) by simp
  next
    show "\<not> (0 \<le> vx p + cos (u * pi * 2) * (localDist env (vx p) (vy p) + u * localDist env (vx p) (vy p)) \<and>
              vx p + cos (u * pi * 2) * (localDist env (vx p) (vy p) + u * localDist env (vx p) (vy p)) < env_w env \<and>
              0 \<le> vy p + sin (u * pi * 2) * (localDist env (vx p) (vy p) + u * localDist env (vx p) (vy p)) \<and>
              vy p + sin (u * pi * 2) * (localDist env (vx p) (vy p) + u * localDist env (vx p) (vy p)) < env_h env)"
      unfolding p_def by (rule Suc.prems(4) [OF mem])
  qed
  let ?st2 = "?st1 \<lparr> ps_drawn := ps_drawn ?st1 + 2 * ?k \<rparr>"
  let ?st3 = "?st2 \<lparr> ps_active := take ri (ps_active ?st2) @ drop (Suc ri) (ps_active ?st2) \<rparr>"
  have step: "poisson_loop env (Suc f) st = poisson_loop env f ?st3"
    by (rule poisson_loop_reject [OF act ri_def [symmetric] p_def [symmetric] ta])
  have act3: "ps_active ?st3 = take ri (ps_active st) @ drop (Suc ri) (ps_active st)" by simp
  have len3: "len = length (ps_active ?st3)"
    using Suc.hyps(2) ri_lt unfolding act3 by simp
  have sub: "set (ps_active ?st3) \<subseteq> set (ps_active st)"
    unfolding act3 using set_take_subset set_drop_subset by fastforce
  have "poisson_loop env f ?st3 = Some (ps_pts ?st3)"
  proof (rule Suc.hyps(1) [OF len3])
    fix n assume "ps_drawn ?st3 \<le> n"
    then show "env_draws env n = u" using Suc.prems(1) by simp
  next
    show "0 \<le> u" "u < 1" by fact+
  next
    fix i assume "i \<in> set (ps_active ?st3)"
    then have i: "i \<in> set (ps_active st)" using sub by blast
    from Suc.prems(4) [OF i]
    show "\<not> (0 \<le> vx (ps_pts ?st3 ! i) + cos (u * pi * 2)
                          * (localDist env (vx (ps_pts ?st3 ! i)) (vy (ps_pts ?st3 ! i))
                             + u * localDist env (vx (ps_pts ?st3 ! i)) (vy (ps_pts ?st3 ! i))) \<and>
                  vx (ps_pts ?st3 ! i) + cos (u * pi * 2)
                          * (localDist env (vx (ps_pts ?st3 ! i)) (vy (ps_pts ?st3 ! i))
                             + u * localDist env (vx (ps_pts ?st3 ! i)) (vy (ps_pts ?st3 ! i))) < env_w env \<and>
                  0 \<le> vy (ps_pts ?st3 ! i) + sin (u * pi * 2)
                          * (localDist env (vx (ps_pts ?st3 ! i)) (vy (ps_pts ?st3 ! i))
                             + u * localDist env (vx (ps_pts ?st3 ! i)) (vy (ps_pts ?st3 ! i))) \<and>
                  vy (ps_pts ?st3 ! i) + sin (u * pi * 2)
                          * (localDist env (vx (ps_pts ?st3 ! i)) (vy (ps_pts ?st3 ! i))
                             + u * localDist env (vx (ps_pts ?st3 ! i)) (vy (ps_pts ?st3 ! i))) < env_h env)"
      by simp
  next
    show "length (ps_active ?st3) \<le> f" using len3 Suc.hyps(2) Suc.prems(5) f by simp
  qed
  then show ?case unfolding f step by simp
qed

lemma spacing_state_simps:
  "ps_pts (spacing_state k g) = take (Suc k) spacing_pts"
  "ps_active (spacing_state k g) = [0..<Suc k]"
  "ps_grid (spacing_state k g) = g"
  "ps_drawn (spacing_state k g) = 3 * k"
  by (simp_all add: spacing_state_def)

lemma spacing_grid_simps:
  "spacing_grid 0 = [(1, 1) \<mapsto> 0]"
  "spacing_grid 1 = (spacing_grid 0)((0, 1) \<mapsto> 1)"
  "spacing_grid 2 = (spacing_grid 1)((0, 0) \<mapsto> 2)"
  "spacing_grid 3 = (spacing_grid 2)((1, 0) \<mapsto> 3)"
  "spacing_grid 4 = (spacing_grid 3)((1, 1) \<mapsto> 4)"
  "spacing_grid 5 = (spacing_grid 4)((2, 1) \<mapsto> 5)"
  by (simp_all add: spacing_grid_def)

lemma spacing_radius: "\<lceil>(96 / 5) / cell_size spacing_env\<rceil> + 1 = 3"
  by (simp only: ceil_ld)

lemma spacing_step1:
  "poisson_loop spacing_env (Suc f) (spacing_state 0 (spacing_grid 0))
     = poisson_loop spacing_env f (spacing_state 1 (spacing_grid 1))"
proof -
  let ?st = "spacing_state 0 (spacing_grid 0)"
  let ?p = "\<lparr> vx = 67 / 2, vy = 67 / 2 \<rparr>"
  have cx: "\<lfloor>(1 / 5) / cell_size spacing_env\<rfloor> = 0" by (rule cell_index) simp_all
  have cy: "\<lfloor>(67 / 2) / cell_size spacing_env\<rfloor> = 1" by (rule cell_index) simp_all
  have far: "\<not> tooClose spacing_env ?st (1 / 5) (67 / 2) (localDist spacing_env (1 / 5) (67 / 2))"
    unfolding localDist_spacing
    by (subst tooClose_eval [OF cx cy spacing_radius])
       (auto simp: list_ex_iff grid_dims spacing_state_def spacing_grid_def spacing_pts_def)
  have "poisson_loop spacing_env (Suc f) ?st
          = poisson_loop spacing_env f
              \<lparr> ps_pts = ps_pts ?st @ [\<lparr> vx = 1 / 5, vy = 67 / 2 \<rparr>],
                ps_active = ps_active ?st @ [length (ps_pts ?st)],
                ps_grid = (ps_grid ?st)((0, 1) \<mapsto> length (ps_pts ?st)),
                ps_drawn = ps_drawn ?st + 3 \<rparr>"
  proof (rule poisson_round_accept [where ri = 0 and p = ?p and m = 29 and ld = "96 / 5"
           and ua = "1 / 2" and ud = "47 / 64" and c = "- 1" and s = "0", OF _ _ _ _ _ _ _ _ _ _ _ _ _ _ _ cx cy _ _ _ _ far])
    show "nat \<lfloor>env_draws spacing_env (ps_drawn ?st) * real (length (ps_active ?st))\<rfloor> = 0"
      by (simp add: spacing_state_simps spacing_env_simps spacing_draws_def)
    show "ps_pts ?st ! (ps_active ?st ! 0) = ?p"
      by (simp add: spacing_state_def spacing_pts_def)
    show "localDist spacing_env (vx ?p) (vy ?p) = 96 / 5" by (rule localDist_spacing)
    show "cos (1 / 2 * pi * 2) = - 1" "sin (1 / 2 * pi * 2) = 0" by (rule trig_draws)+
  qed (simp_all add: spacing_state_simps spacing_env_simps spacing_draws_def grid_dims)
  also have "\<lparr> ps_pts = ps_pts ?st @ [\<lparr> vx = 1 / 5, vy = 67 / 2 \<rparr>],
                ps_active = ps_active ?st @ [length (ps_pts ?st)],
                ps_grid = (ps_grid ?st)((0, 1) \<mapsto> length (ps_pts ?st)),
                ps_drawn = ps_drawn ?st + 3 \<rparr> = spacing_state 1 (spacing_grid 1)"
    by (simp add: spacing_state_def spacing_grid_def spacing_pts_def eval_nat_numeral)
  finally show ?thesis .
qed

lemma spacing_step2:
  "poisson_loop spacing_env (Suc f) (spacing_state 1 (spacing_grid 1))
     = poisson_loop spacing_env f (spacing_state 2 (spacing_grid 2))"
proof -
  let ?st = "spacing_state 1 (spacing_grid 1)"
  let ?p = "\<lparr> vx = 1 / 5, vy = 67 / 2 \<rparr>"
  have cx: "\<lfloor>(1 / 5) / cell_size spacing_env\<rfloor> = 0" by (rule cell_index) simp_all
  have cy: "\<lfloor>(1 / 5) / cell_size spacing_env\<rfloor> = 0" by (rule cell_index) simp_all
  have far: "\<not> tooClose spacing_env ?st (1 / 5) (1 / 5) (localDist spacing_env (1 / 5) (1 / 5))"
    unfolding localDist_spacing
    by (subst tooClose_eval [OF cx cy spacing_radius])
       (auto simp: list_ex_iff grid_dims spacing_state_def spacing_grid_def spacing_pts_def)
  have "poisson_loop spacing_env (Suc f) ?st
          = poisson_loop spacing_env f
              \<lparr> ps_pts = ps_pts ?st @ [\<lparr> vx = 1 / 5, vy = 1 / 5 \<rparr>],
                ps_active = ps_active ?st @ [length (ps_pts ?st)],
                ps_grid = (ps_grid ?st)((0, 0) \<mapsto> length (ps_pts ?st)),
                ps_drawn = ps_drawn ?st + 3 \<rparr>"
  proof (rule poisson_round_accept [where ri = 1 and p = ?p and m = 29 and ld = "96 / 5"
           and ua = "3 / 4" and ud = "47 / 64" and c = "0" and s = "- 1", OF _ _ _ _ _ _ _ _ _ _ _ _ _ _ _ cx cy _ _ _ _ far])
    show "nat \<lfloor>env_draws spacing_env (ps_drawn ?st) * real (length (ps_active ?st))\<rfloor> = 1"
      by (simp add: spacing_state_simps spacing_env_simps spacing_draws_def)
    show "ps_pts ?st ! (ps_active ?st ! 1) = ?p"
      by (simp add: spacing_state_def spacing_pts_def)
    show "localDist spacing_env (vx ?p) (vy ?p) = 96 / 5" by (rule localDist_spacing)
    show "cos (3 / 4 * pi * 2) = 0" "sin (3 / 4 * pi * 2) = - 1" by (rule trig_draws)+
  qed (simp_all add: spacing_state_simps spacing_env_simps spacing_draws_def grid_dims)
  also have "\<lparr> ps_pts = ps_pts ?st @ [\<lparr> vx = 1 / 5, vy = 1 / 5 \<rparr>],
                ps_active = ps_active ?st @ [length (ps_pts ?st)],
                ps_grid = (ps_grid ?st)((0, 0) \<mapsto> length (ps_pts ?st)),
                ps_drawn = ps_drawn ?st + 3 \<rparr> = spacing_state 2 (spacing_grid 2)"
    by (simp add: spacing_state_def spacing_grid_def spacing_pts_def eval_nat_numeral)
  finally show ?thesis .
qed

lemma spacing_step3:
  "poisson_loop spacing_env (Suc f) (spacing_state 2 (spacing_grid 2))
     = poisson_loop spacing_env f (spacing_state 3 (spacing_grid 3))"
proof -
  let ?st = "spacing_state 2 (spacing_grid 2)"
  let ?p = "\<lparr> vx = 1 / 5, vy = 1 / 5 \<rparr>"
  have cx: "\<lfloor>(39 / 2) / cell_size spacing_env\<rfloor> = 1" by (rule cell_index) simp_all
  have cy: "\<lfloor>(1 / 5) / cell_size spacing_env\<rfloor> = 0" by (rule cell_index) simp_all
  have far: "\<not> tooClose spacing_env ?st (39 / 2) (1 / 5) (localDist spacing_env (39 / 2) (1 / 5))"
    unfolding localDist_spacing
    by (subst tooClose_eval [OF cx cy spacing_radius])
       (auto simp: list_ex_iff grid_dims spacing_state_def spacing_grid_def spacing_pts_def)
  have "poisson_loop spacing_env (Suc f) ?st
          = poisson_loop spacing_env f
              \<lparr> ps_pts = ps_pts ?st @ [\<lparr> vx = 39 / 2, vy = 1 / 5 \<rparr>],
                ps_active = ps_active ?st @ [length (ps_pts ?st)],
                ps_grid = (ps_grid ?st)((1, 0) \<mapsto> length (ps_pts ?st)),
                ps_drawn = ps_drawn ?st + 3 \<rparr>"
  proof (rule poisson_round_accept [where ri = 2 and p = ?p and m = 29 and ld = "96 / 5"
           and ua = "0" and ud = "1 / 192" and c = "1" and s = "0", OF _ _ _ _ _ _ _ _ _ _ _ _ _ _ _ cx cy _ _ _ _ far])
    show "nat \<lfloor>env_draws spacing_env (ps_drawn ?st) * real (length (ps_active ?st))\<rfloor> = 2"
      by (simp add: spacing_state_simps spacing_env_simps spacing_draws_def)
    show "ps_pts ?st ! (ps_active ?st ! 2) = ?p"
      by (simp add: spacing_state_def spacing_pts_def)
    show "localDist spacing_env (vx ?p) (vy ?p) = 96 / 5" by (rule localDist_spacing)
    show "cos (0 * pi * 2) = 1" "sin (0 * pi * 2) = 0" by (rule trig_draws)+
  qed (simp_all add: spacing_state_simps spacing_env_simps spacing_draws_def grid_dims)
  also have "\<lparr> ps_pts = ps_pts ?st @ [\<lparr> vx = 39 / 2, vy = 1 / 5 \<rparr>],
                ps_active = ps_active ?st @ [length (ps_pts ?st)],
                ps_grid = (ps_grid ?st)((1, 0) \<mapsto> length (ps_pts ?st)),
                ps_drawn = ps_drawn ?st + 3 \<rparr> = spacing_state 3 (spacing_grid 3)"
    by (simp add: spacing_state_def spacing_grid_def spacing_pts_def eval_nat_numeral)
  finally show ?thesis .
qed

lemma spacing_step4:
  "poisson_loop spacing_env (Suc f) (spacing_state 3 (spacing_grid 3))
     = poisson_loop spacing_env f (spacing_state 4 (spacing_grid 4))"
proof -
  let ?st = "spacing_state 3 (spacing_grid 3)"
  let ?p = "\<lparr> vx = 39 / 2, vy = 1 / 5 \<rparr>"
  have cx: "\<lfloor>(39 / 2) / cell_size spacing_env\<rfloor> = 1" by (rule cell_index) simp_all
  have cy: "\<lfloor>(39 / 2) / cell_size spacing_env\<rfloor> = 1" by (rule cell_index) simp_all
  have far: "\<not> tooClose spacing_env ?st (39 / 2) (39 / 2) (localDist spacing_env (39 / 2) (39 / 2))"
    unfolding localDist_spacing
    by (subst tooClose_eval [OF cx cy spacing_radius])
       (auto simp: list_ex_iff grid_dims spacing_state_def spacing_grid_def spacing_pts_def)
  have "poisson_loop spacing_env (Suc f) ?st
          = poisson_loop spacing_env f
              \<lparr> ps_pts = ps_pts ?st @ [\<lparr> vx = 39 / 2, vy = 39 / 2 \<rparr>],
                ps_active = ps_active ?st @ [length (ps_pts ?st)],
                ps_grid = (ps_grid ?st)((1, 1) \<mapsto> length (ps_pts ?st)),
                ps_drawn = ps_drawn ?st + 3 \<rparr>"
  proof (rule poisson_round_accept [where ri = 3 and p = ?p and m = 29 and ld = "96 / 5"
           and ua = "1 / 4" and ud = "1 / 192" and c = "0" and s = "1", OF _ _ _ _ _ _ _ _ _ _ _ _ _ _ _ cx cy _ _ _ _ far])
    show "nat \<lfloor>env_draws spacing_env (ps_drawn ?st) * real (length (ps_active ?st))\<rfloor> = 3"
      by (simp add: spacing_state_simps spacing_env_simps spacing_draws_def)
    show "ps_pts ?st ! (ps_active ?st ! 3) = ?p"
      by (simp add: spacing_state_def spacing_pts_def)
    show "localDist spacing_env (vx ?p) (vy ?p) = 96 / 5" by (rule localDist_spacing)
    show "cos (1 / 4 * pi * 2) = 0" "sin (1 / 4 * pi * 2) = 1" by (rule trig_draws)+
  qed (simp_all add: spacing_state_simps spacing_env_simps spacing_draws_def grid_dims)
  also have "\<lparr> ps_pts = ps_pts ?st @ [\<lparr> vx = 39 / 2, vy = 39 / 2 \<rparr>],
                ps_active = ps_active ?st @ [length (ps_pts ?st)],
                ps_grid = (ps_grid ?st)((1, 1) \<mapsto> length (ps_pts ?st)),
                ps_drawn = ps_drawn ?st + 3 \<rparr> = spacing_state 4 (spacing_grid 4)"
    by (simp add: spacing_state_def spacing_grid_def spacing_pts_def eval_nat_numeral)
  finally show ?thesis .
qed

lemma spacing_step5:
  "poisson_loop spacing_env (Suc f) (spacing_state 4 (spacing_grid 4))
     = poisson_loop spacing_env f (spacing_state 5 (spacing_grid 5))"
proof -
  let ?st = "spacing_state 4 (spacing_grid 4)"
  let ?p = "\<lparr> vx = 39 / 2, vy = 39 / 2 \<rparr>"
  have cx: "\<lfloor>(79 / 2) / cell_size spacing_env\<rfloor> = 2" by (rule cell_index) simp_all
  have cy: "\<lfloor>(39 / 2) / cell_size spacing_env\<rfloor> = 1" by (rule cell_index) simp_all
  have far: "\<not> tooClose spacing_env ?st (79 / 2) (39 / 2) (localDist spacing_env (79 / 2) (39 / 2))"
    unfolding localDist_spacing
    by (subst tooClose_eval [OF cx cy spacing_radius])
       (auto simp: list_ex_iff grid_dims spacing_state_def spacing_grid_def spacing_pts_def)
  have "poisson_loop spacing_env (Suc f) ?st
          = poisson_loop spacing_env f
              \<lparr> ps_pts = ps_pts ?st @ [\<lparr> vx = 79 / 2, vy = 39 / 2 \<rparr>],
                ps_active = ps_active ?st @ [length (ps_pts ?st)],
                ps_grid = (ps_grid ?st)((2, 1) \<mapsto> length (ps_pts ?st)),
                ps_drawn = ps_drawn ?st + 3 \<rparr>"
  proof (rule poisson_round_accept [where ri = 4 and p = ?p and m = 29 and ld = "96 / 5"
           and ua = "0" and ud = "1 / 24" and c = "1" and s = "0", OF _ _ _ _ _ _ _ _ _ _ _ _ _ _ _ cx cy _ _ _ _ far])
    show "nat \<lfloor>env_draws spacing_env (ps_drawn ?st) * real (length (ps_active ?st))\<rfloor> = 4"
      by (simp add: spacing_state_simps spacing_env_simps spacing_draws_def)
    show "ps_pts ?st ! (ps_active ?st ! 4) = ?p"
      by (simp add: spacing_state_def spacing_pts_def)
    show "localDist spacing_env (vx ?p) (vy ?p) = 96 / 5" by (rule localDist_spacing)
    show "cos (0 * pi * 2) = 1" "sin (0 * pi * 2) = 0" by (rule trig_draws)+
  qed (simp_all add: spacing_state_simps spacing_env_simps spacing_draws_def grid_dims)
  also have "\<lparr> ps_pts = ps_pts ?st @ [\<lparr> vx = 79 / 2, vy = 39 / 2 \<rparr>],
                ps_active = ps_active ?st @ [length (ps_pts ?st)],
                ps_grid = (ps_grid ?st)((2, 1) \<mapsto> length (ps_pts ?st)),
                ps_drawn = ps_drawn ?st + 3 \<rparr> = spacing_state 5 (spacing_grid 5)"
    by (simp add: spacing_state_def spacing_grid_def spacing_pts_def eval_nat_numeral)
  finally show ?thesis .
qed

lemma spacing_draws_range: "0 \<le> spacing_draws n \<and> spacing_draws n < 1"
proof (cases "n < 15")
  case True
  let ?xs = "[0, 1 / 2, 47 / 64, 1 / 2, 3 / 4, 47 / 64, 2 / 3, 0, 1 / 192,
             3 / 4, 1 / 4, 1 / 192, 4 / 5, 0, 1 / 24] :: real list"
  have "\<forall>x \<in> set ?xs. 0 \<le> x \<and> x < 1" by simp
  moreover have "?xs ! n \<in> set ?xs" using True by (intro nth_mem) simp
  ultimately have "0 \<le> ?xs ! n \<and> ?xs ! n < 1" by blast
  then show ?thesis using True by (simp add: spacing_draws_def)
next
  case False
  then show ?thesis by (simp add: spacing_draws_def)
qed

lemma spacing_drain:
  assumes "6 \<le> fuel"
  shows "poisson_loop spacing_env fuel (spacing_state 5 (spacing_grid 5)) = Some spacing_pts"
proof -
  let ?st = "spacing_state 5 (spacing_grid 5)"
  have "poisson_loop spacing_env fuel ?st = Some (ps_pts ?st)"
  proof (rule poisson_loop_drain [where u = "3 / 4"])
    fix n assume "ps_drawn ?st \<le> n"
    then show "env_draws spacing_env n = 3 / 4"
      by (simp add: spacing_state_simps spacing_env_simps spacing_draws_def)
  next
    fix i assume "i \<in> set (ps_active ?st)"
    then have "i \<in> {0, 1, 2, 3, 4, 5}" by (auto simp: spacing_state_simps)
    then have "vy (ps_pts ?st ! i) < 168 / 5"
      by (auto simp: spacing_state_def spacing_pts_def)
    then show "\<not> (0 \<le> vx (ps_pts ?st ! i) + cos (3 / 4 * pi * 2)
                          * (localDist spacing_env (vx (ps_pts ?st ! i)) (vy (ps_pts ?st ! i))
                             + 3 / 4 * localDist spacing_env (vx (ps_pts ?st ! i)) (vy (ps_pts ?st ! i))) \<and>
                  vx (ps_pts ?st ! i) + cos (3 / 4 * pi * 2)
                          * (localDist spacing_env (vx (ps_pts ?st ! i)) (vy (ps_pts ?st ! i))
                             + 3 / 4 * localDist spacing_env (vx (ps_pts ?st ! i)) (vy (ps_pts ?st ! i))) < env_w spacing_env \<and>
                  0 \<le> vy (ps_pts ?st ! i) + sin (3 / 4 * pi * 2)
                          * (localDist spacing_env (vx (ps_pts ?st ! i)) (vy (ps_pts ?st ! i))
                             + 3 / 4 * localDist spacing_env (vx (ps_pts ?st ! i)) (vy (ps_pts ?st ! i))) \<and>
                  vy (ps_pts ?st ! i) + sin (3 / 4 * pi * 2)
                          * (localDist spacing_env (vx (ps_pts ?st ! i)) (vy (ps_pts ?st ! i))
                             + 3 / 4 * localDist spacing_env (vx (ps_pts ?st ! i)) (vy (ps_pts ?st ! i))) < env_h spacing_env)"
      unfolding localDist_spacing trig_draws by simp
  next
    show "length (ps_active ?st) \<le> fuel" using assms by (simp add: spacing_state_simps)
  qed simp_all
  then show ?thesis by (simp add: spacing_state_def spacing_pts_def)
qed

lemma spacing_run:
  assumes "11 \<le> fuel"
  shows "adaptivePoissonSampling spacing_env fuel = Some spacing_pts"
proof -
  define f where "f = fuel - 5"
  have f: "fuel = Suc (Suc (Suc (Suc (Suc f))))" and f6: "6 \<le> f"
    unfolding f_def using assms by linarith+
  show ?thesis
    unfolding adaptivePoissonSampling_def spacing_init f
      spacing_step1 spacing_step2 spacing_step3 spacing_step4 spacing_step5
    by (rule spacing_drain [OF f6])
qed

text \<open>
  Claim C3. The claim says that any two accepted points are at least as far apart as the
  smaller of their local spacings. The grid keeps one index per cell, and a cell of side
  \<open>baseMinDist / sqrt 2\<close> can hold two points that are a local spacing apart as soon as the
  spacing factor is below 1; the later point then hides the earlier one from \<open>tooClose\<close>.
  On a uniform image of 67 by 67 pixels at mood 0 (base spacing 24, local spacing 19.2
  everywhere), with the draws \<open>spacing_draws\<close>, the sampler returns six points of which
  the first and the last are about 15.23 apart.
\<close>

theorem poisson_spacing_violated:
  "adaptivePoissonSampling spacing_env 11 = Some spacing_pts \<and>
   distance (spacing_pts ! 0) (spacing_pts ! 5)
     < min (localSpacing spacing_env (spacing_pts ! 0)) (localSpacing spacing_env (spacing_pts ! 5))"
proof -
  have "sqrt 232 < 96 / 5" by (rule real_less_lsqrt) (simp_all add: power2_eq_square)
  then have "distance (spacing_pts ! 0) (spacing_pts ! 5) < 96 / 5"
    by (simp add: distance_def spacing_pts_def power2_eq_square)
  with spacing_run [of 11] show ?thesis by (simp add: localSpacing_spacing)
qed

subsection \<open>Shape classification\<close>

lemma am_push_keys: "fst ` set (am_push e i m) = insert e (fst ` set m)"
proof (induction m)
  case Nil
  then show ?case by simp
next
  case (Cons a m)
  obtain e' l where a: "a = (e', l)" by (cases a)
  show ?case using Cons.IH unfolding a by (cases "e' = e") auto
qed

lemma am_push_distinct: "distinct (map fst m) \<Longrightarrow> distinct (map fst (am_push e i m))"
proof (induction m)
  case Nil
  then show ?case by simp
next
  case (Cons a m)
  obtain e' l where a: "a = (e', l)" by (cases a)
  show ?case
  proof (cases "e' = e")
    case True
    then show ?thesis using Cons.prems a by simp
  next
    case False
    have "e' \<notin> fst ` set (am_push e i m)"
      using Cons.prems a False by (simp add: am_push_keys)
    then show ?thesis using Cons a False by simp
  qed
qed

lemma am_push_lookup:
  "lookup (am_push e i m) e' = (if e' = e then lookup m e @ [i] else lookup m e')"
  by (induction m) (auto simp: lookup_def)

lemma build_edgeMap_pushes:
  "build_edgeMap tris = foldl (\<lambda>m (e, i). am_push e i m) [] (pushes tris [0..<length tris])"
proof -
  have "foldl (\<lambda>m i. foldl (\<lambda>m e. am_push e i m) m (tri_edge_keys (tris ! i))) m0 js
          = foldl (\<lambda>m (e, i). am_push e i m) m0 (pushes tris js)" for m0 js
  proof (induction js arbitrary: m0)
    case Nil
    then show ?case by (simp add: pushes_def)
  next
    case (Cons j js)
    have inner: "foldl (\<lambda>m e. am_push e j m) m es
                   = foldl (\<lambda>m (e, i). am_push e i m) m (map (\<lambda>e. (e, j)) es)" for m es
      by (induction es arbitrary: m) simp_all
    show ?case using Cons.IH by (simp add: pushes_def inner)
  qed
  then show ?thesis by (simp add: build_edgeMap_def)
qed

lemma fold_pushes:
  assumes "distinct (map fst m)"
  shows "distinct (map fst (foldl (\<lambda>m (e, i). am_push e i m) m ps)) \<and>
         fst ` set (foldl (\<lambda>m (e, i). am_push e i m) m ps) = fst ` set m \<union> fst ` set ps \<and>
         (\<forall>e. lookup (foldl (\<lambda>m (e, i). am_push e i m) m ps) e
                 = lookup m e @ map snd (filter (\<lambda>p. fst p = e) ps))"
  using assms
proof (induction ps arbitrary: m)
  case Nil
  then show ?case by simp
next
  case (Cons p ps)
  obtain e i where p: "p = (e, i)" by (cases p)
  have d: "distinct (map fst (am_push e i m))" using Cons.prems by (rule am_push_distinct)
  from Cons.IH [OF d] show ?case
    unfolding p by (auto simp: am_push_keys am_push_lookup)
qed

lemma holders_pushes:
  "holders tris e = map snd (filter (\<lambda>p. fst p = e) (pushes tris [0..<length tris]))"
proof -
  have "concat (map (\<lambda>i. map (\<lambda>_. i) (filter (\<lambda>e'. e' = e) (tri_edge_keys (tris ! i)))) js)
          = map snd (filter (\<lambda>p. fst p = e) (pushes tris js))" for js
    by (induction js) (simp_all add: pushes_def filter_map comp_def)
  then show ?thesis by (simp add: holders_def)
qed

lemma build_edgeMap_entries:
  "distinct (map fst (build_edgeMap tris))"
  "(e, l) \<in> set (build_edgeMap tris) \<Longrightarrow> l = holders tris e"
  "i < length tris \<Longrightarrow> set (tri_edge_keys (tris ! i)) \<subseteq> fst ` set (build_edgeMap tris)"
proof -
  note f = fold_pushes [of "[]" "pushes tris [0..<length tris]", simplified,
                        folded build_edgeMap_pushes]
  show d: "distinct (map fst (build_edgeMap tris))" using f by simp
  show "l = holders tris e" if "(e, l) \<in> set (build_edgeMap tris)"
  proof -
    from that d have "map_of (build_edgeMap tris) e = Some l" by simp
    then have "lookup (build_edgeMap tris) e = l" by (simp add: lookup_def)
    with f show ?thesis by (simp add: holders_pushes lookup_def)
  qed
  show "set (tri_edge_keys (tris ! i)) \<subseteq> fst ` set (build_edgeMap tris)" if "i < length tris"
  proof -
    have "fst ` set (build_edgeMap tris) = fst ` set (pushes tris [0..<length tris])"
      using f by simp
    moreover have "set (tri_edge_keys (tris ! i)) \<subseteq> fst ` set (pushes tris [0..<length tris])"
      using that by (force simp: pushes_def)
    ultimately show ?thesis by simp
  qed
qed

lemma nb_step_length: "length (nb_step nbs entry) = length nbs"
  by (cases entry) (simp add: nb_step_def Let_def)

lemma nb_step_nth:
  assumes "i < length nbs"
  shows "nb_step nbs entry ! i = nbs ! i @ contrib i entry"
proof -
  obtain e l where entry: "entry = (e, l)" by (cases entry)
  show ?thesis
  proof (cases "length l = 2")
    case False
    then show ?thesis by (simp add: entry nb_step_def contrib_def)
  next
    case True
    let ?n1 = "nbs[l ! 0 := nbs ! (l ! 0) @ [l ! 1]]"
    have step: "nb_step nbs entry = ?n1[l ! 1 := ?n1 ! (l ! 1) @ [l ! 0]]"
      using True by (simp add: entry nb_step_def Let_def)
    have n1: "?n1 ! i = nbs ! i @ (if l ! 0 = i then [l ! 1] else [])"
      using assms by (simp add: nth_list_update)
    have "(?n1[l ! 1 := ?n1 ! (l ! 1) @ [l ! 0]]) ! i
            = ?n1 ! i @ (if l ! 1 = i then [l ! 0] else [])"
      using assms by (simp add: nth_list_update)
    then show ?thesis unfolding step n1 using True by (simp add: entry contrib_def)
  qed
qed

lemma foldl_nb_step_length: "length (foldl nb_step nbs em) = length nbs"
  by (induction em arbitrary: nbs) (simp_all add: nb_step_length)

lemma foldl_nb_step_nth:
  "i < length nbs \<Longrightarrow> foldl nb_step nbs em ! i = nbs ! i @ concat (map (contrib i) em)"
proof (induction em arbitrary: nbs)
  case Nil
  then show ?case by simp
next
  case (Cons entry em)
  have "i < length (nb_step nbs entry)" using Cons.prems by (simp add: nb_step_length)
  from Cons.IH [OF this] show ?case using Cons.prems by (simp add: nb_step_nth)
qed

lemma build_neighbors_nth:
  "i < length tris \<Longrightarrow> build_neighbors tris ! i = concat (map (contrib i) (build_edgeMap tris))"
  by (simp add: build_neighbors_def foldl_nb_step_nth)

lemma count_list_replicate_map: "count_list (map (\<lambda>_. j) ys) i = (if i = j then length ys else 0)"
  by (induction ys) auto

lemma length_filter_eq_count: "length (filter (\<lambda>e'. e' = e) ks) = count_list ks e"
  by (induction ks) simp_all

lemma count_holders:
  assumes "i < length tris"
  shows "count_list (holders tris e) i = count_list (tri_edge_keys (tris ! i)) e"
proof -
  have "count_list (concat (map (\<lambda>j. map (\<lambda>_. j) (filter (\<lambda>e'. e' = e) (tri_edge_keys (tris ! j)))) js)) i
          = (if i \<in> set js then count_list (tri_edge_keys (tris ! i)) e else 0)"
    if "distinct js" for js
    using that
    by (induction js) (auto simp: count_list_replicate_map length_filter_eq_count)
  from this [of "[0..<length tris]"] assms show ?thesis by (simp add: holders_def)
qed

lemma sum_list_indicator:
  "distinct D \<Longrightarrow> k \<in> set D \<Longrightarrow> sum_list (map (\<lambda>e. if e = k then d e else (0::nat)) D) = d k"
  by (induction D) auto

lemma sum_list_regroup:
  assumes "distinct D" and "set ks \<subseteq> set D"
  shows "sum_list (map d ks) = sum_list (map (\<lambda>e. count_list ks e * (d e :: nat)) D)"
  using assms(2)
proof (induction ks)
  case Nil
  then show ?case by simp
next
  case (Cons k ks)
  have "sum_list (map (\<lambda>e. count_list (k # ks) e * d e) D)
          = sum_list (map (\<lambda>e. count_list ks e * d e + (if e = k then d e else 0)) D)"
    by (rule arg_cong [where f = sum_list], rule map_cong) simp_all
  also have "\<dots> = sum_list (map (\<lambda>e. count_list ks e * d e) D)
                   + sum_list (map (\<lambda>e. if e = k then d e else 0) D)"
    by (simp add: sum_list_addf)
  also have "\<dots> = sum_list (map d ks) + d k"
    using Cons assms(1) by (simp add: sum_list_indicator)
  finally show ?case by simp
qed

lemma contrib_count:
  assumes "count_list l i = c"
  shows "length (filter P (contrib i (e, l)))
           = c * (if length l = 2 \<and> P (if l ! 0 = i then l ! 1 else l ! 0) then 1 else 0)"
proof (cases "length l = 2")
  case False
  then show ?thesis by (simp add: contrib_def)
next
  case True
  then obtain a b where l: "l = [a, b]"
    by (metis (no_types, opaque_lifting) One_nat_def Suc_1 length_0_conv length_Suc_conv)
  show ?thesis using assms unfolding l by (auto simp: contrib_def)
qed

lemma length_filter_concat:
  "length (filter P (concat xss)) = sum_list (map (\<lambda>xs. length (filter P xs)) xss)"
  by (induction xss) simp_all

lemma sum_list_indicator_filter:
  "sum_list (map (\<lambda>e. if Q e then 1 else (0::nat)) ks) = length (filter Q ks)"
  by (induction ks) simp_all

lemma neighbors_count:
  assumes "i < length tris"
  shows "length (filter P (build_neighbors tris ! i))
           = length (filter P (shared_edge_neighbors tris i))"
proof -
  let ?em = "build_edgeMap tris" and ?ks = "tri_edge_keys (tris ! i)"
  let ?d = "\<lambda>e. if length (holders tris e) = 2 \<and> P (other_holder tris i e) then 1 else (0::nat)"
  have ent: "length (filter P (contrib i ent)) = count_list ?ks (fst ent) * ?d (fst ent)"
    if "ent \<in> set ?em" for ent
  proof -
    obtain e l where el: "ent = (e, l)" by (cases ent)
    with that have l: "l = holders tris e" by (simp add: build_edgeMap_entries(2))
    have c: "count_list (holders tris e) i = count_list ?ks e"
      by (rule count_holders [OF assms])
    show ?thesis unfolding el l using contrib_count [OF c, of P e]
      by (simp add: other_holder_def)
  qed
  have "length (filter P (build_neighbors tris ! i))
          = sum_list (map (\<lambda>ent. length (filter P (contrib i ent))) ?em)"
    by (simp add: build_neighbors_nth [OF assms] length_filter_concat comp_def)
  also have "\<dots> = sum_list (map (\<lambda>ent. count_list ?ks (fst ent) * ?d (fst ent)) ?em)"
    by (rule arg_cong [where f = sum_list], rule map_cong) (simp_all add: ent)
  also have "\<dots> = sum_list (map (\<lambda>e. count_list ?ks e * ?d e) (map fst ?em))"
    by (simp add: comp_def)
  also have "\<dots> = sum_list (map ?d ?ks)"
  proof (rule sum_list_regroup [symmetric])
    show "distinct (map fst ?em)" by (rule build_edgeMap_entries(1))
    show "set ?ks \<subseteq> set (map fst ?em)"
      using build_edgeMap_entries(3) [OF assms] by simp
  qed
  also have "\<dots> = length (filter (\<lambda>e. length (holders tris e) = 2 \<and> P (other_holder tris i e)) ?ks)"
    by (rule sum_list_indicator_filter)
  also have "\<dots> = length (filter P (shared_edge_neighbors tris i))"
    by (simp add: shared_edge_neighbors_def filter_map comp_def conj_commute)
  finally show ?thesis .
qed

lemma foldl_add_sum_list: "foldl (\<lambda>s t. s + f t) a xs = a + sum_list (map f xs)" for a :: real
  by (induction xs arbitrary: a) (simp_all add: add.assoc)

lemma foldl_classify_step:
  "foldl (classify_step tris threshold avgArea nbs) (p0, d0) xs
     = (p0 @ map ((!) tris)
               (filter (\<lambda>i. area (tris ! i) \<ge> avgArea * 0.55 \<and>
                            2 \<le> length (filter (similar tris threshold i) (nbs ! i))) xs),
        d0 @ map ((!) tris)
               (filter (\<lambda>i. \<not> (area (tris ! i) \<ge> avgArea * 0.55 \<and>
                               2 \<le> length (filter (similar tris threshold i) (nbs ! i)))) xs))"
  by (induction xs arbitrary: p0 d0) (simp_all add: classify_step_def Let_def)

lemma classifyShapes_eq:
  "classifyShapes tris threshold
     = (map ((!) tris) (filter (primary_computed tris threshold) [0..<length tris]),
        map ((!) tris) (filter (\<lambda>i. \<not> primary_computed tris threshold i) [0..<length tris]))"
proof -
  let ?avg = "foldl (\<lambda>s t. s + area t) 0 tris / real (length tris)"
  let ?R = "\<lambda>i. area (tris ! i) \<ge> ?avg * 0.55 \<and>
                 2 \<le> length (filter (similar tris threshold i) (build_neighbors tris ! i))"
  have avg: "?avg = mean_area tris" by (simp add: foldl_add_sum_list mean_area_def)
  have R: "?R i = primary_computed tris threshold i" if "i \<in> set [0..<length tris]" for i
  proof -
    from that have "i < length tris" by simp
    then show ?thesis
      unfolding avg primary_computed_def by (simp add: neighbors_count mult.commute)
  qed
  have f1: "filter ?R [0..<length tris] = filter (primary_computed tris threshold) [0..<length tris]"
    by (rule filter_cong [OF refl R])
  have f2: "filter (\<lambda>i. \<not> ?R i) [0..<length tris]
              = filter (\<lambda>i. \<not> primary_computed tris threshold i) [0..<length tris]"
    by (rule filter_cong [OF refl]) (simp only: R)
  show ?thesis
    unfolding classifyShapes_def Let_def foldl_classify_step f1 f2 by simp
qed

lemma length_filter_partition:
  "length (filter Q xs) + length (filter (\<lambda>i. \<not> Q i) xs) = length xs"
  by (induction xs) simp_all

text \<open>
  What the loops compute. Every input triangle goes to exactly one of the two lists, so the
  two lengths add up to the input length; the triangle at index \<open>i\<close> goes to \<open>primary\<close>
  exactly when \<open>primary_computed\<close> holds of it.
\<close>

lemma classifyShapes_computed:
  "classifyShapes tris threshold
     = (map ((!) tris) (filter (primary_computed tris threshold) [0..<length tris]),
        map ((!) tris) (filter (\<lambda>i. \<not> primary_computed tris threshold i) [0..<length tris]))"
  by (simp add: classifyShapes_eq)

lemma classifyShapes_partition:
  "length (fst (classifyShapes tris threshold)) + length (snd (classifyShapes tris threshold))
     = length tris"
  using length_filter_partition [of "primary_computed tris threshold" "[0..<length tris]"]
  by (simp add: classifyShapes_eq)

lemma dup_neighbors:
  "shared_edge_neighbors [dup_tri, dup_tri] 0 = [1, 1, 1]"
  "shared_edge_neighbors [dup_tri, dup_tri] 1 = [0, 0, 0]"
  by code_simp+

lemma similar_same: "0 < threshold \<Longrightarrow> tris ! i = tris ! j \<Longrightarrow> similar tris threshold i j"
  by (simp add: similar_def colorDistance_def)

lemma dup_area: "area dup_tri = 50"
  by (simp add: dup_tri_def)

lemma dup_similar: "similar [dup_tri, dup_tri] (1 / 2) i j" if "i < 2" "j < 2"
proof -
  have "[dup_tri, dup_tri] ! i = dup_tri" "[dup_tri, dup_tri] ! j = dup_tri"
    using that by (simp_all add: nth_Cons')
  then show ?thesis by (intro similar_same) simp_all
qed

lemma dup_rule: "primary_computed [dup_tri, dup_tri] (1 / 2) 0" "primary_computed [dup_tri, dup_tri] (1 / 2) 1"
  by (simp_all add: primary_computed_def dup_neighbors [unfolded One_nat_def] dup_similar
                    mean_area_def dup_area)

lemma dup_stated: "\<not> primary_rule_stated [dup_tri, dup_tri] (1 / 2) 0"
  by (simp add: primary_rule_stated_def dup_neighbors)

text \<open>
  Claim C2. The claim says that a triangle is primary if and only if its area is at least
  0.55 times the mean area and at least 2 of its edge-sharing neighbours have a similar
  blended colour. For the list that holds the same triangle twice, each copy has one
  neighbour, the other copy, so by the claim neither copy is primary. The source pushes the
  neighbour once for each of the three shared edges and never removes the duplicates, counts
  three similar neighbours, and puts both copies in \<open>primary\<close>.
\<close>

theorem classifyShapes_counts_edges:
  "classifyShapes [dup_tri, dup_tri] (1 / 2) = ([dup_tri, dup_tri], []) \<and>
   remdups (shared_edge_neighbors [dup_tri, dup_tri] 0) = [1] \<and>
   \<not> primary_rule_stated [dup_tri, dup_tri] (1 / 2) 0"
proof -
  have "classifyShapes [dup_tri, dup_tri] (1 / 2) = ([dup_tri, dup_tri], [])"
    unfolding classifyShapes_eq using dup_rule by (simp add: upt_rec [of 0] upt_rec [of 1])
  moreover have "remdups (shared_edge_neighbors [dup_tri, dup_tri] 0) = [1]"
    by (simp add: dup_neighbors)
  ultimately show ?thesis using dup_stated by simp
qed

subsection \<open>Empty circumcircles\<close>

text \<open>Evaluation of the rounded operations on numerals.\<close>

lemma to_double_unfold:
  "to_double x =
     (if x = 0 then 0
      else of_int (round_half_even (x / 2 powi (binade 1100 \<bar>x\<bar> - 52)))
           * 2 powi (binade 1100 \<bar>x\<bar> - 52))"
  by (simp add: to_double_def Let_def)

lemma round_half_even_unfold:
  "round_half_even x =
     (if x - of_int \<lfloor>x\<rfloor> < 1 / 2 then \<lfloor>x\<rfloor>
      else if 1 / 2 < x - of_int \<lfloor>x\<rfloor> then \<lfloor>x\<rfloor> + 1
      else if even \<lfloor>x\<rfloor> then \<lfloor>x\<rfloor> else \<lfloor>x\<rfloor> + 1)"
  by (simp add: round_half_even_def Let_def)

lemmas dbl = dadd_def dsub_def dmul_def ddiv_def to_double_unfold binade_numeral
  round_half_even_unfold power_int_minus

lemma near_bbox: "bbox near_circle4 = (0, 0, 1, 1)"
  by (simp add: bbox_def bbox_step_def near_circle4_def)

lemma near_super: "near_circle4 @ superTri_double near_circle4 = near_all"
  unfolding superTri_double_def near_bbox prod.case Let_def near_all_def by (simp add: dbl)

lemma nth_near:
  "near_circle4 ! 0 = \<lparr> vx = 1, vy = 0 \<rparr>" "near_circle4 ! 1 = \<lparr> vx = 0, vy = 1 \<rparr>"
  "near_circle4 ! 2 = \<lparr> vx = 0, vy = 0 \<rparr>"
  "near_circle4 ! 3 = \<lparr> vx = 9007199254740991 / 9007199254740992, vy = 1 \<rparr>"
  by (simp_all add: near_circle4_def)

lemma nth_all:
  "near_all ! 0 = \<lparr> vx = 1, vy = 0 \<rparr>" "near_all ! 1 = \<lparr> vx = 0, vy = 1 \<rparr>"
  "near_all ! 2 = \<lparr> vx = 0, vy = 0 \<rparr>"
  "near_all ! 3 = \<lparr> vx = 9007199254740991 / 9007199254740992, vy = 1 \<rparr>"
  "near_all ! 4 = \<lparr> vx = - 39 / 2, vy = - 1 / 2 \<rparr>" "near_all ! 5 = \<lparr> vx = 1 / 2, vy = 41 / 2 \<rparr>"
  "near_all ! 6 = \<lparr> vx = 41 / 2, vy = - 1 / 2 \<rparr>"
  by (simp_all add: near_all_def near_circle4_def)

lemma near_test_0_0:
  "inCircumcircle_double (near_circle4 ! 0) (near_all ! 4) (near_all ! 5) (near_all ! 6)"
  unfolding inCircumcircle_double_def Let_def nth_near nth_all vec2.select_convs by (simp add: dbl)

lemma near_bad_0:
  "bad_tris_double near_all (near_circle4 ! 0) [(4, 5, 6)] = [(0, (4, 5, 6))]"
  using near_test_0_0
  by (simp add: bad_tris_double_def)

lemma near_step_0:
  "insert_point_double near_circle4 near_all [(4, 5, 6)] 0 = [(4, 5, 0), (5, 6, 0), (6, 4, 0)]"
  unfolding insert_point_double_def Let_def near_bad_0
  by (simp add: cavity_poly_def shared_def tri_edges_def same_edge_def)

lemma near_test_1_0:
  "inCircumcircle_double (near_circle4 ! 1) (near_all ! 4) (near_all ! 5) (near_all ! 0)"
  unfolding inCircumcircle_double_def Let_def nth_near nth_all vec2.select_convs by (simp add: dbl)

lemma near_test_1_1:
  "\<not> inCircumcircle_double (near_circle4 ! 1) (near_all ! 5) (near_all ! 6) (near_all ! 0)"
  unfolding inCircumcircle_double_def Let_def nth_near nth_all vec2.select_convs by (simp add: dbl)

lemma near_test_1_2:
  "\<not> inCircumcircle_double (near_circle4 ! 1) (near_all ! 6) (near_all ! 4) (near_all ! 0)"
  unfolding inCircumcircle_double_def Let_def nth_near nth_all vec2.select_convs by (simp add: dbl)

lemma near_bad_1:
  "bad_tris_double near_all (near_circle4 ! 1) [(4, 5, 0), (5, 6, 0), (6, 4, 0)] = [(0, (4, 5, 0))]"
  using near_test_1_0 near_test_1_1 near_test_1_2
  by (simp add: bad_tris_double_def)

lemma near_step_1:
  "insert_point_double near_circle4 near_all [(4, 5, 0), (5, 6, 0), (6, 4, 0)] 1 = [(5, 6, 0), (6, 4, 0), (4, 5, 1), (5, 0, 1), (0, 4, 1)]"
  unfolding insert_point_double_def Let_def near_bad_1
  by (simp add: cavity_poly_def shared_def tri_edges_def same_edge_def)

lemma near_test_2_0:
  "\<not> inCircumcircle_double (near_circle4 ! 2) (near_all ! 5) (near_all ! 6) (near_all ! 0)"
  unfolding inCircumcircle_double_def Let_def nth_near nth_all vec2.select_convs by (simp add: dbl)

lemma near_test_2_1:
  "\<not> inCircumcircle_double (near_circle4 ! 2) (near_all ! 6) (near_all ! 4) (near_all ! 0)"
  unfolding inCircumcircle_double_def Let_def nth_near nth_all vec2.select_convs by (simp add: dbl)

lemma near_test_2_2:
  "\<not> inCircumcircle_double (near_circle4 ! 2) (near_all ! 4) (near_all ! 5) (near_all ! 1)"
  unfolding inCircumcircle_double_def Let_def nth_near nth_all vec2.select_convs by (simp add: dbl)

lemma near_test_2_3:
  "\<not> inCircumcircle_double (near_circle4 ! 2) (near_all ! 5) (near_all ! 0) (near_all ! 1)"
  unfolding inCircumcircle_double_def Let_def nth_near nth_all vec2.select_convs by (simp add: dbl)

lemma near_test_2_4:
  "inCircumcircle_double (near_circle4 ! 2) (near_all ! 0) (near_all ! 4) (near_all ! 1)"
  unfolding inCircumcircle_double_def Let_def nth_near nth_all vec2.select_convs by (simp add: dbl)

lemma near_bad_2:
  "bad_tris_double near_all (near_circle4 ! 2) [(5, 6, 0), (6, 4, 0), (4, 5, 1), (5, 0, 1), (0, 4, 1)] = [(4, (0, 4, 1))]"
  using near_test_2_0 near_test_2_1 near_test_2_2 near_test_2_3 near_test_2_4
  by (simp add: bad_tris_double_def)

lemma near_step_2:
  "insert_point_double near_circle4 near_all [(5, 6, 0), (6, 4, 0), (4, 5, 1), (5, 0, 1), (0, 4, 1)] 2 = [(5, 6, 0), (6, 4, 0), (4, 5, 1), (5, 0, 1), (0, 4, 2), (4, 1, 2), (1, 0, 2)]"
  unfolding insert_point_double_def Let_def near_bad_2
  by (simp add: cavity_poly_def shared_def tri_edges_def same_edge_def)

lemma near_test_3_0:
  "inCircumcircle_double (near_circle4 ! 3) (near_all ! 5) (near_all ! 6) (near_all ! 0)"
  unfolding inCircumcircle_double_def Let_def nth_near nth_all vec2.select_convs by (simp add: dbl)

lemma near_test_3_1:
  "\<not> inCircumcircle_double (near_circle4 ! 3) (near_all ! 6) (near_all ! 4) (near_all ! 0)"
  unfolding inCircumcircle_double_def Let_def nth_near nth_all vec2.select_convs by (simp add: dbl)

lemma near_test_3_2:
  "\<not> inCircumcircle_double (near_circle4 ! 3) (near_all ! 4) (near_all ! 5) (near_all ! 1)"
  unfolding inCircumcircle_double_def Let_def nth_near nth_all vec2.select_convs by (simp add: dbl)

lemma near_test_3_3:
  "inCircumcircle_double (near_circle4 ! 3) (near_all ! 5) (near_all ! 0) (near_all ! 1)"
  unfolding inCircumcircle_double_def Let_def nth_near nth_all vec2.select_convs by (simp add: dbl)

lemma near_test_3_4:
  "\<not> inCircumcircle_double (near_circle4 ! 3) (near_all ! 0) (near_all ! 4) (near_all ! 2)"
  unfolding inCircumcircle_double_def Let_def nth_near nth_all vec2.select_convs by (simp add: dbl)

lemma near_test_3_5:
  "\<not> inCircumcircle_double (near_circle4 ! 3) (near_all ! 4) (near_all ! 1) (near_all ! 2)"
  unfolding inCircumcircle_double_def Let_def nth_near nth_all vec2.select_convs by (simp add: dbl)

lemma near_test_3_6:
  "\<not> inCircumcircle_double (near_circle4 ! 3) (near_all ! 1) (near_all ! 0) (near_all ! 2)"
  unfolding inCircumcircle_double_def Let_def nth_near nth_all vec2.select_convs by (simp add: dbl)

lemma near_bad_3:
  "bad_tris_double near_all (near_circle4 ! 3) [(5, 6, 0), (6, 4, 0), (4, 5, 1), (5, 0, 1), (0, 4, 2), (4, 1, 2), (1, 0, 2)] = [(0, (5, 6, 0)), (3, (5, 0, 1))]"
  using near_test_3_0 near_test_3_1 near_test_3_2 near_test_3_3 near_test_3_4 near_test_3_5 near_test_3_6
  by (simp add: bad_tris_double_def)

lemma near_step_3:
  "insert_point_double near_circle4 near_all [(5, 6, 0), (6, 4, 0), (4, 5, 1), (5, 0, 1), (0, 4, 2), (4, 1, 2), (1, 0, 2)] 3 = [(6, 4, 0), (4, 5, 1), (0, 4, 2), (4, 1, 2), (1, 0, 2), (5, 6, 3), (6, 0, 3), (0, 1, 3), (1, 5, 3)]"
  unfolding insert_point_double_def Let_def near_bad_3
  by (simp add: cavity_poly_def shared_def tri_edges_def same_edge_def)

lemma near_run: "delaunay_tris_double near_circle4 = [(1, 0, 2), (0, 1, 3)]"
proof -
  have len: "length near_circle4 = 4" by (simp add: near_circle4_def)
  have "all_tris_double near_circle4
      = foldl (insert_point_double near_circle4 near_all) [(4, 5, 6)] [0, 1, 2, 3]"
  proof -
    have u: "[0..<4] = [0, 1, 2, 3::nat]" by (simp add: upt_rec eval_nat_numeral)
    show ?thesis unfolding all_tris_double_def Let_def near_super len u by simp
  qed
  also have "\<dots> = [(6, 4, 0), (4, 5, 1), (0, 4, 2), (4, 1, 2), (1, 0, 2),
                    (5, 6, 3), (6, 0, 3), (0, 1, 3), (1, 5, 3)]"
    by (simp only: foldl.simps near_step_0 near_step_1 near_step_2 near_step_3)
  finally show ?thesis by (simp add: delaunay_tris_double_def len)
qed

lemma near_circumcenter:
  "circumcenter (near_circle4 ! 1) (near_circle4 ! 0) (near_circle4 ! 2) = \<lparr> vx = 1 / 2, vy = 1 / 2 \<rparr>"
  unfolding circumcenter_def Let_def nth_near vec2.select_convs by simp

lemma near_inside:
  "inside_circumcircle (near_circle4 ! 3) (near_circle4 ! 1) (near_circle4 ! 0) (near_circle4 ! 2)"
  unfolding inside_circumcircle_def near_circumcenter unfolding nth_near sqdist_def vec2.select_convs
  by simp

text \<open>
  The same input in exact arithmetic: the last test of the last insertion is the only one
  that differs, the triangle \<open>(1, 0, 2)\<close> is removed, and the two triangles returned
  have empty circumcircles.
\<close>

lemma near_super_exact: "near_circle4 @ superTri near_circle4 = near_all"
  unfolding superTri_def near_bbox prod.case Let_def near_all_def by simp

lemma near_exact_test_0_0:
  "inCircumcircle (near_circle4 ! 0) (near_all ! 4) (near_all ! 5) (near_all ! 6)"
  unfolding inCircumcircle_def Let_def nth_near nth_all vec2.select_convs by simp

lemma near_exact_bad_0:
  "bad_tris near_all (near_circle4 ! 0) [(4, 5, 6)] = [(0, (4, 5, 6))]"
  using near_exact_test_0_0
  by (simp add: bad_tris_def)

lemma near_exact_step_0:
  "insert_point near_circle4 near_all [(4, 5, 6)] 0 = [(4, 5, 0), (5, 6, 0), (6, 4, 0)]"
  unfolding insert_point_def Let_def near_exact_bad_0
  by (simp add: cavity_poly_def shared_def tri_edges_def same_edge_def)

lemma near_exact_test_1_0:
  "inCircumcircle (near_circle4 ! 1) (near_all ! 4) (near_all ! 5) (near_all ! 0)"
  unfolding inCircumcircle_def Let_def nth_near nth_all vec2.select_convs by simp

lemma near_exact_test_1_1:
  "\<not> inCircumcircle (near_circle4 ! 1) (near_all ! 5) (near_all ! 6) (near_all ! 0)"
  unfolding inCircumcircle_def Let_def nth_near nth_all vec2.select_convs by simp

lemma near_exact_test_1_2:
  "\<not> inCircumcircle (near_circle4 ! 1) (near_all ! 6) (near_all ! 4) (near_all ! 0)"
  unfolding inCircumcircle_def Let_def nth_near nth_all vec2.select_convs by simp

lemma near_exact_bad_1:
  "bad_tris near_all (near_circle4 ! 1) [(4, 5, 0), (5, 6, 0), (6, 4, 0)] = [(0, (4, 5, 0))]"
  using near_exact_test_1_0 near_exact_test_1_1 near_exact_test_1_2
  by (simp add: bad_tris_def)

lemma near_exact_step_1:
  "insert_point near_circle4 near_all [(4, 5, 0), (5, 6, 0), (6, 4, 0)] 1 = [(5, 6, 0), (6, 4, 0), (4, 5, 1), (5, 0, 1), (0, 4, 1)]"
  unfolding insert_point_def Let_def near_exact_bad_1
  by (simp add: cavity_poly_def shared_def tri_edges_def same_edge_def)

lemma near_exact_test_2_0:
  "\<not> inCircumcircle (near_circle4 ! 2) (near_all ! 5) (near_all ! 6) (near_all ! 0)"
  unfolding inCircumcircle_def Let_def nth_near nth_all vec2.select_convs by simp

lemma near_exact_test_2_1:
  "\<not> inCircumcircle (near_circle4 ! 2) (near_all ! 6) (near_all ! 4) (near_all ! 0)"
  unfolding inCircumcircle_def Let_def nth_near nth_all vec2.select_convs by simp

lemma near_exact_test_2_2:
  "\<not> inCircumcircle (near_circle4 ! 2) (near_all ! 4) (near_all ! 5) (near_all ! 1)"
  unfolding inCircumcircle_def Let_def nth_near nth_all vec2.select_convs by simp

lemma near_exact_test_2_3:
  "\<not> inCircumcircle (near_circle4 ! 2) (near_all ! 5) (near_all ! 0) (near_all ! 1)"
  unfolding inCircumcircle_def Let_def nth_near nth_all vec2.select_convs by simp

lemma near_exact_test_2_4:
  "inCircumcircle (near_circle4 ! 2) (near_all ! 0) (near_all ! 4) (near_all ! 1)"
  unfolding inCircumcircle_def Let_def nth_near nth_all vec2.select_convs by simp

lemma near_exact_bad_2:
  "bad_tris near_all (near_circle4 ! 2) [(5, 6, 0), (6, 4, 0), (4, 5, 1), (5, 0, 1), (0, 4, 1)] = [(4, (0, 4, 1))]"
  using near_exact_test_2_0 near_exact_test_2_1 near_exact_test_2_2 near_exact_test_2_3 near_exact_test_2_4
  by (simp add: bad_tris_def)

lemma near_exact_step_2:
  "insert_point near_circle4 near_all [(5, 6, 0), (6, 4, 0), (4, 5, 1), (5, 0, 1), (0, 4, 1)] 2 = [(5, 6, 0), (6, 4, 0), (4, 5, 1), (5, 0, 1), (0, 4, 2), (4, 1, 2), (1, 0, 2)]"
  unfolding insert_point_def Let_def near_exact_bad_2
  by (simp add: cavity_poly_def shared_def tri_edges_def same_edge_def)

lemma near_exact_test_3_0:
  "inCircumcircle (near_circle4 ! 3) (near_all ! 5) (near_all ! 6) (near_all ! 0)"
  unfolding inCircumcircle_def Let_def nth_near nth_all vec2.select_convs by simp

lemma near_exact_test_3_1:
  "\<not> inCircumcircle (near_circle4 ! 3) (near_all ! 6) (near_all ! 4) (near_all ! 0)"
  unfolding inCircumcircle_def Let_def nth_near nth_all vec2.select_convs by simp

lemma near_exact_test_3_2:
  "\<not> inCircumcircle (near_circle4 ! 3) (near_all ! 4) (near_all ! 5) (near_all ! 1)"
  unfolding inCircumcircle_def Let_def nth_near nth_all vec2.select_convs by simp

lemma near_exact_test_3_3:
  "inCircumcircle (near_circle4 ! 3) (near_all ! 5) (near_all ! 0) (near_all ! 1)"
  unfolding inCircumcircle_def Let_def nth_near nth_all vec2.select_convs by simp

lemma near_exact_test_3_4:
  "\<not> inCircumcircle (near_circle4 ! 3) (near_all ! 0) (near_all ! 4) (near_all ! 2)"
  unfolding inCircumcircle_def Let_def nth_near nth_all vec2.select_convs by simp

lemma near_exact_test_3_5:
  "\<not> inCircumcircle (near_circle4 ! 3) (near_all ! 4) (near_all ! 1) (near_all ! 2)"
  unfolding inCircumcircle_def Let_def nth_near nth_all vec2.select_convs by simp

lemma near_exact_test_3_6:
  "inCircumcircle (near_circle4 ! 3) (near_all ! 1) (near_all ! 0) (near_all ! 2)"
  unfolding inCircumcircle_def Let_def nth_near nth_all vec2.select_convs by simp

lemma near_exact_bad_3:
  "bad_tris near_all (near_circle4 ! 3) [(5, 6, 0), (6, 4, 0), (4, 5, 1), (5, 0, 1), (0, 4, 2), (4, 1, 2), (1, 0, 2)] = [(0, (5, 6, 0)), (3, (5, 0, 1)), (6, (1, 0, 2))]"
  using near_exact_test_3_0 near_exact_test_3_1 near_exact_test_3_2 near_exact_test_3_3 near_exact_test_3_4 near_exact_test_3_5 near_exact_test_3_6
  by (simp add: bad_tris_def)

lemma near_exact_step_3:
  "insert_point near_circle4 near_all [(5, 6, 0), (6, 4, 0), (4, 5, 1), (5, 0, 1), (0, 4, 2), (4, 1, 2), (1, 0, 2)] 3 = [(6, 4, 0), (4, 5, 1), (0, 4, 2), (4, 1, 2), (5, 6, 3), (6, 0, 3), (1, 5, 3), (0, 2, 3), (2, 1, 3)]"
  unfolding insert_point_def Let_def near_exact_bad_3
  by (simp add: cavity_poly_def shared_def tri_edges_def same_edge_def)

lemma near_exact_run: "delaunay_tris near_circle4 = [(0, 2, 3), (2, 1, 3)]"
proof -
  have len: "length near_circle4 = 4" by (simp add: near_circle4_def)
  have "all_tris near_circle4
      = foldl (insert_point near_circle4 near_all) [(4, 5, 6)] [0, 1, 2, 3]"
  proof -
    have u: "[0..<4] = [0, 1, 2, 3::nat]" by (simp add: upt_rec eval_nat_numeral)
    show ?thesis unfolding all_tris_def Let_def near_super_exact len u by simp
  qed
  also have "\<dots> = [(6, 4, 0), (4, 5, 1), (0, 4, 2), (4, 1, 2), (5, 6, 3),
                    (6, 0, 3), (1, 5, 3), (0, 2, 3), (2, 1, 3)]"
    by (simp only: foldl.simps near_exact_step_0 near_exact_step_1 near_exact_step_2
                   near_exact_step_3)
  finally show ?thesis by (simp add: delaunay_tris_def len)
qed

lemma near_exact_empty:
  "\<not> inside_circumcircle (near_circle4 ! 1) (near_circle4 ! 0) (near_circle4 ! 2) (near_circle4 ! 3)"
  "\<not> inside_circumcircle (near_circle4 ! 0) (near_circle4 ! 2) (near_circle4 ! 1) (near_circle4 ! 3)"
  unfolding inside_circumcircle_def circumcenter_def Let_def sqdist_def nth_near vec2.select_convs
  by simp_all

text \<open>
  Claim C1. The claim says that the circumcircle of every triangle of the triangulation
  contains no other input point in its interior. For the four points of \<open>near_circle4\<close> the
  source returns the triangles \<open>(1, 0, 2)\<close> and \<open>(0, 1, 3)\<close>. The circumcircle of the first
  has centre \<open>(1/2, 1/2)\<close> and squared radius \<open>1/2\<close>, and the fourth point is in its
  interior: when that point is inserted, the determinant of \<open>inCircumcircle\<close> for the triangle
  \<open>(1, 0, 2)\<close> is rounded to 0, so the triangle is kept.
\<close>

theorem delaunay_double_circumcircle_not_empty:
  "delaunay_tris_double near_circle4 = [(1, 0, 2), (0, 1, 3)] \<and>
   circumcenter (near_circle4 ! 1) (near_circle4 ! 0) (near_circle4 ! 2)
     = \<lparr> vx = 1 / 2, vy = 1 / 2 \<rparr> \<and>
   sqdist (near_circle4 ! 1) \<lparr> vx = 1 / 2, vy = 1 / 2 \<rparr> = 1 / 2 \<and>
   sqdist (near_circle4 ! 0) \<lparr> vx = 1 / 2, vy = 1 / 2 \<rparr> = 1 / 2 \<and>
   sqdist (near_circle4 ! 2) \<lparr> vx = 1 / 2, vy = 1 / 2 \<rparr> = 1 / 2 \<and>
   sqdist (near_circle4 ! 3) \<lparr> vx = 1 / 2, vy = 1 / 2 \<rparr> < 1 / 2 \<and>
   inside_circumcircle (near_circle4 ! 3) (near_circle4 ! 1) (near_circle4 ! 0) (near_circle4 ! 2)"
proof -
  have d: "sqdist (near_circle4 ! 1) \<lparr> vx = 1 / 2, vy = 1 / 2 \<rparr> = 1 / 2"
    "sqdist (near_circle4 ! 0) \<lparr> vx = 1 / 2, vy = 1 / 2 \<rparr> = 1 / 2"
    "sqdist (near_circle4 ! 2) \<lparr> vx = 1 / 2, vy = 1 / 2 \<rparr> = 1 / 2"
    "sqdist (near_circle4 ! 3) \<lparr> vx = 1 / 2, vy = 1 / 2 \<rparr> < 1 / 2"
    unfolding nth_near sqdist_def vec2.select_convs by simp_all
  show ?thesis using near_run near_circumcenter near_inside d by blast
qed

end
